theory Spec2Isabelle
  imports Main "HOL-Library.Sublist" "HOL-Library.AList"
begin

section \<open>Python strings\<close>

text \<open>
  A Python \<^verbatim>\<open>str\<close> is modelled as a \<^typ>\<open>string\<close>. The delimiters the code
  looks for (newline, colon, comma, the double quote, the import prefixes) are ASCII, so
  splitting and replacing act on a UTF-8 byte sequence as they act on the code points.
  \<^verbatim>\<open>strip\<close> and \<^verbatim>\<open>lower\<close> are modelled on the ASCII range: the whitespace stripped is
  the ASCII part of what \<^verbatim>\<open>str.isspace\<close> accepts, and only \<^verbatim>\<open>A\<close> to \<^verbatim>\<open>Z\<close> change case.
\<close>

definition newline :: char where
  "newline = CHR 0x0A"

definition dquote :: char where
  "dquote = CHR 0x22"

definition triple_quote :: string where
  "triple_quote = [dquote, dquote, dquote]"

definition py_isspace :: "char \<Rightarrow> bool" where
  "py_isspace c = (let n = (of_char c :: nat) in (9 \<le> n \<and> n \<le> 13) \<or> (28 \<le> n \<and> n \<le> 32))"

definition py_strip :: "string \<Rightarrow> string" where
  "py_strip s = rev (dropWhile py_isspace (rev (dropWhile py_isspace s)))"

definition py_lower_char :: "char \<Rightarrow> char" where
  "py_lower_char c =
     (let n = (of_char c :: nat) in if 65 \<le> n \<and> n \<le> 90 then char_of (n + 32) else c)"

definition py_lower :: "string \<Rightarrow> string" where
  "py_lower s = map py_lower_char s"

text \<open>\<^verbatim>\<open>s.find(p)\<close>: the index of the first occurrence of \<open>p\<close> in \<open>s\<close>.\<close>

fun py_find :: "string \<Rightarrow> string \<Rightarrow> nat option" where
  "py_find p [] = (if p = [] then Some 0 else None)"
| "py_find p (c # cs) =
     (if prefix p (c # cs) then Some 0 else map_option Suc (py_find p cs))"

text \<open>\<^verbatim>\<open>p in s\<close> on strings.\<close>

definition py_in :: "string \<Rightarrow> string \<Rightarrow> bool" where
  "py_in p s = (py_find p s \<noteq> None)"

text \<open>\<^verbatim>\<open>s.split(sep)\<close> for a one-character separator: never an empty list.\<close>

fun py_split :: "char \<Rightarrow> string \<Rightarrow> string list" where
  "py_split sep [] = [[]]"
| "py_split sep (c # cs) =
     (if c = sep then [] # py_split sep cs
      else (case py_split sep cs of
              [] \<Rightarrow> [[c]]
            | w # ws \<Rightarrow> (c # w) # ws))"

text \<open>
  \<^verbatim>\<open>s.split(sep, 1)\<close>: the text before the first separator, and the text after it when
  there is a separator.
\<close>

definition py_split1 :: "char \<Rightarrow> string \<Rightarrow> string \<times> string option" where
  "py_split1 sep s =
     (takeWhile (\<lambda>c. c \<noteq> sep) s,
      case dropWhile (\<lambda>c. c \<noteq> sep) s of [] \<Rightarrow> None | _ # r \<Rightarrow> Some r)"

text \<open>\<^verbatim>\<open>s.replace(old, new, 1)\<close>: only the first occurrence is replaced.\<close>

fun py_replace1 :: "string \<Rightarrow> string \<Rightarrow> string \<Rightarrow> string" where
  "py_replace1 old new [] = (if old = [] then new else [])"
| "py_replace1 old new (c # cs) =
     (if prefix old (c # cs) then new @ drop (length old) (c # cs)
      else c # py_replace1 old new cs)"

text \<open>\<^verbatim>\<open>sep.join(xs)\<close>.\<close>

fun py_join :: "string \<Rightarrow> string list \<Rightarrow> string" where
  "py_join sep [] = []"
| "py_join sep [x] = x"
| "py_join sep (x # y # ys) = x @ sep @ py_join sep (y # ys)"

text \<open>
  \<^verbatim>\<open>os.path.join(a, b)\<close> on POSIX: an absolute \<open>b\<close> replaces \<open>a\<close>, and a slash is put
  between the two unless \<open>a\<close> is empty or ends with one.
\<close>

definition path_join :: "string \<Rightarrow> string \<Rightarrow> string" where
  "path_join a b =
     (if prefix ''/'' b then b
      else if a = [] \<or> last a = CHR ''/'' then a @ b
      else a @ ''/'' @ b)"

text \<open>
  \<^verbatim>\<open>s.replace(old, new)\<close>: occurrences are replaced from the left and do not overlap. With
  an empty \<open>old\<close> Python puts \<open>new\<close> before every character and at the end.
\<close>

function py_replace :: "string \<Rightarrow> string \<Rightarrow> string \<Rightarrow> string" where
  "py_replace old new [] = (if old = [] then new else [])"
| "py_replace old new (c # cs) =
     (if old = [] then new @ c # py_replace old new cs
      else if prefix old (c # cs) then new @ py_replace old new (drop (length old) (c # cs))
      else c # py_replace old new cs)"
  by pat_completeness auto
termination
  by (relation "measure (\<lambda>(old, new, s). length s)") auto

section \<open>Frontmatter and import rewriting (utils/plugin.py)\<close>

text \<open>
  A Python \<^verbatim>\<open>dict\<close> with string keys is an association list with distinct keys in
  insertion order; \<^verbatim>\<open>d[k] = v\<close> is \<^const>\<open>AList.update\<close>, which overwrites in place or
  appends, and a lookup is \<^const>\<open>map_of\<close>.
\<close>

type_synonym frontmatter = "(string \<times> string) list"

text \<open>
  \<^verbatim>\<open>re.search(r'"""(.*?)"""', content, re.DOTALL)\<close>, group 1. The leftmost match starts
  at the first triple quote that has another triple quote after it; when the first one has
  none, no later one has, so the match starts at the first triple quote of the text. The lazy
  group then ends at the first triple quote that follows.
\<close>

definition first_docstring :: "string \<Rightarrow> string option" where
  "first_docstring content =
     (case py_find triple_quote content of
        None \<Rightarrow> None
      | Some i \<Rightarrow>
          (let rest = drop (i + 3) content in
           case py_find triple_quote rest of
             None \<Rightarrow> None
           | Some j \<Rightarrow> Some (take j rest)))"

text \<open>The body of the loop over the lines of the block.\<close>

definition frontmatter_line :: "string \<Rightarrow> frontmatter \<Rightarrow> frontmatter" where
  "frontmatter_line line fm =
     (if CHR '':'' \<in> set line then
        (case py_split1 CHR '':'' line of
           (key, Some val) \<Rightarrow> AList.update (py_lower (py_strip key)) (py_strip val) fm
         | (key, None) \<Rightarrow> fm)
      else fm)"

definition extract_frontmatter :: "string \<Rightarrow> frontmatter" where
  "extract_frontmatter content =
     (if \<not> py_in triple_quote (fst (py_split1 newline content)) then []
      else (case first_docstring content of
              None \<Rightarrow> []
            | Some frontmatter_str \<Rightarrow>
                fold frontmatter_line (py_split newline (py_strip frontmatter_str)) []))"

text \<open>The table of \<^verbatim>\<open>replace_imports\<close>, in the order the dictionary is written.\<close>

definition replacements :: "(string \<times> string) list" where
  "replacements =
     [(''from utils'', ''from open_webui.utils''),
      (''from apps'', ''from open_webui.apps''),
      (''from main'', ''from open_webui.main''),
      (''from config'', ''from open_webui.config'')]"

definition replace_imports :: "string \<Rightarrow> string" where
  "replace_imports content = fold (\<lambda>(old, new) c. py_replace old new c) replacements content"


section \<open>Data model (models/tools.py)\<close>

datatype json =
    JNull
  | JBool bool
  | JInt int
  | JStr string
  | JList "json list"
  | JObj "(string \<times> json) list"

type_synonym py_dict = "(string \<times> json) list"

text \<open>
  The access-control descriptor: a dictionary from the permission (\<^verbatim>\<open>"read"\<close>,
  \<^verbatim>\<open>"write"\<close>) to the group ids and user ids that hold it.
\<close>

record access_grant =
  group_ids :: "string list"
  user_ids :: "string list"

type_synonym acl = "(string \<times> access_grant) list"

text \<open>
  The \<^verbatim>\<open>specs\<close> column is JSON: the code expects a list of dictionaries and repairs a
  value that is not a list.
\<close>

datatype specs_json = SpecsList "py_dict list" | SpecsDict py_dict | SpecsNull

text \<open>A row of the table \<^verbatim>\<open>tool\<close> (class \<^verbatim>\<open>Tool\<close>); \<open>id\<close> is \<open>tool_id\<close> here.\<close>

record tool =
  tool_id :: string
  user_id :: "string option"
  name :: string
  content :: string
  specs :: specs_json
  meta :: py_dict
  valves :: "py_dict option"
  access_control :: "acl option"
  updated_at :: int
  created_at :: int

text \<open>\<^verbatim>\<open>UserResponse\<close>, also the shape of the authenticated principal.\<close>

record user_response =
  uid :: string
  uname :: string
  role :: string
  email :: string
  profile_image_url :: string

record tool_meta =
  description :: "string option"
  manifest :: "py_dict option"

text \<open>\<^verbatim>\<open>ToolModel\<close> and \<^verbatim>\<open>ToolUserModel\<close>; the latter adds the joined user.\<close>

record tool_model =
  model_id :: string
  model_user_id :: "string option"
  model_name :: string
  model_content :: string
  model_specs :: "py_dict list"
  model_meta :: tool_meta
  model_access_control :: "acl option"
  model_updated_at :: int
  model_created_at :: int

record tool_user_model = tool_model +
  user :: "user_response option"

text \<open>
  \<^verbatim>\<open>ToolForm\<close>. \<^verbatim>\<open>model_dump(exclude_unset=True)\<close> keeps the fields that were set, so
  each field but the id is optional here; a form validated from a request has name, content
  and meta set.
\<close>

record tool_form =
  form_id :: string
  form_name :: "string option"
  form_content :: "string option"
  form_meta :: "tool_meta option"
  form_access_control :: "acl option option"

text \<open>
  The rows of the companion extension type (functions). Only the columns that
  utils/plugin.py reads or writes are kept.
\<close>

record function_row =
  function_id :: string
  function_content :: string
  is_active :: bool

section \<open>Loaded modules, the world outside, errors\<close>

text \<open>
  A nested configuration class (\<^verbatim>\<open>Valves\<close>, \<^verbatim>\<open>UserValves\<close>) is what the code uses of
  it: its JSON schema, and \<^verbatim>\<open>Valves(**kwargs).model_dump()\<close>, which is \<open>None\<close> when
  validation raises.
\<close>

record valves_class =
  model_json_schema :: json
  validate_dump :: "py_dict \<Rightarrow> py_dict option"

record tools_obj =
  obj_label :: string
  Valves :: "valves_class option"
  UserValves :: "valves_class option"

datatype function_obj = FunctionObj string

text \<open>
  What executing a source text leaves in the module namespace: for each entry-point class
  the code looks for, its instance when the class is there.
\<close>

record namespace =
  ns_Tools :: "tools_obj option"
  ns_Pipe :: "function_obj option"
  ns_Filter :: "function_obj option"
  ns_Action :: "function_obj option"

text \<open>
  The collaborators outside the files under study, as parameters: the Python interpreter
  (\<open>py_exec\<close> is \<open>None\<close> when executing the text or instantiating the entry point raises),
  the file system, the environment, pip, group membership and \<^verbatim>\<open>get_tool_specs\<close>.
\<close>

record env =
  py_exec :: "string \<Rightarrow> namespace option"
  files :: "string \<rightharpoonup> string"
  TOOLS_DIR :: "string option"
  pip_succeeds :: "string list \<Rightarrow> bool"
  sys_executable :: string
  PIP_OPTIONS :: "string list"
  PIP_PACKAGE_INDEX_OPTIONS :: "string list"
  groups_of :: "string \<Rightarrow> string list"
  get_tool_specs :: "tools_obj \<Rightarrow> py_dict list"

datatype py_error =
    ToolkitNotFound
  | FunctionNotFound
  | FileNotFoundError
  | NoToolsClassInFile
  | NoToolsClass
  | NoFunctionClass
  | ExecError
  | CalledProcessError
  | ValidationError
  | TypeError
  | AttributeError
  | KeyError
  | UnboundLocalError
  | HTTPException nat detail
and detail =
    NOT_FOUND
  | UNAUTHORIZED
  | NoValvesSupport
  | ErrorUpdatingTool
  | DEFAULT py_error

text \<open>
  The mutable state: the tables, the process-wide caches of \<^verbatim>\<open>request.app.state\<close>
  (\<open>FUNCTIONS\<close> and \<open>FUNCTION_CONTENTS\<close> may not exist yet), and two logs of effects:
  the source texts executed and the pip commands run, in order.
\<close>

record app_state =
  tool_table :: "tool list"
  function_table :: "function_row list"
  user_table :: "user_response list"
  TOOLS :: "string \<rightharpoonup> tools_obj"
  FUNCTIONS :: "(string \<rightharpoonup> function_obj) option"
  FUNCTION_CONTENTS :: "(string \<rightharpoonup> string) option"
  exec_log :: "string list"
  pip_log :: "string list list"

text \<open>A call returns the state it leaves and either the exception raised or a value.\<close>

type_synonym 'a result = "app_state \<times> (py_error + 'a)"

section \<open>The record store (models/tools.py)\<close>

text \<open>\<^verbatim>\<open>filter_by(id=id)\<close>: the primary key selects at most one row.\<close>

definition get_row :: "tool list \<Rightarrow> string \<Rightarrow> tool option" where
  "get_row rows i = find (\<lambda>t. tool_id t = i) rows"

definition update_row :: "string \<Rightarrow> (tool \<Rightarrow> tool) \<Rightarrow> tool list \<Rightarrow> tool list" where
  "update_row i f rows = map (\<lambda>t. if tool_id t = i then f t else t) rows"

text \<open>
  \<^verbatim>\<open>order_by(Tool.updated_at.desc())\<close>. SQL leaves the order of rows with equal keys open;
  the model keeps them in table order.
\<close>

definition order_by_updated_at_desc :: "tool list \<Rightarrow> tool list" where
  "order_by_updated_at_desc rows = sort_key (\<lambda>t. - updated_at t) rows"

text \<open>The relationship \<^verbatim>\<open>Tool.user\<close>, loaded with the row.\<close>

definition joined_user :: "app_state \<Rightarrow> tool \<Rightarrow> user_response option" where
  "joined_user st t =
     (case user_id t of
        None \<Rightarrow> None
      | Some u \<Rightarrow> find (\<lambda>r. uid r = u) (user_table st))"

text \<open>
  Validation of the \<^verbatim>\<open>meta\<close> column into \<^verbatim>\<open>ToolMeta\<close>: the two declared keys are read,
  \<^verbatim>\<open>manifest\<close> defaults to the empty dictionary. Rows are taken to be well typed in this
  column, so validation does not fail on it.
\<close>

definition to_tool_meta :: "py_dict \<Rightarrow> tool_meta" where
  "to_tool_meta m =
     \<lparr>description = (case map_of m ''description'' of Some (JStr d) \<Rightarrow> Some d | _ \<Rightarrow> None),
      manifest = (case map_of m ''manifest'' of
                    None \<Rightarrow> Some []
                  | Some (JObj d) \<Rightarrow> Some d
                  | _ \<Rightarrow> None)\<rparr>"

text \<open>\<^verbatim>\<open>ToolMeta.model_dump()\<close>.\<close>

definition dump_tool_meta :: "tool_meta \<Rightarrow> py_dict" where
  "dump_tool_meta tm =
     [(''description'', case description tm of None \<Rightarrow> JNull | Some d \<Rightarrow> JStr d),
      (''manifest'', case manifest tm of None \<Rightarrow> JNull | Some d \<Rightarrow> JObj d)]"

text \<open>The repair \<^verbatim>\<open>[specs_value] if specs_value else []\<close> of a value that is not a list.\<close>

definition fixed_specs :: "specs_json \<Rightarrow> py_dict list" where
  "fixed_specs sp =
     (case sp of
        SpecsList l \<Rightarrow> l
      | SpecsDict d \<Rightarrow> (if d \<noteq> [] then [d] else [])
      | SpecsNull \<Rightarrow> [])"

definition to_tool_model :: "tool \<Rightarrow> py_dict list \<Rightarrow> tool_model" where
  "to_tool_model t sp =
     \<lparr>model_id = tool_id t, model_user_id = user_id t, model_name = name t,
      model_content = content t, model_specs = sp, model_meta = to_tool_meta (meta t),
      model_access_control = access_control t, model_updated_at = updated_at t,
      model_created_at = created_at t\<rparr>"

definition to_tool_user_model ::
  "tool \<Rightarrow> py_dict list \<Rightarrow> user_response option \<Rightarrow> tool_user_model" where
  "to_tool_user_model t sp u =
     \<lparr>model_id = tool_id t, model_user_id = user_id t, model_name = name t,
      model_content = content t, model_specs = sp, model_meta = to_tool_meta (meta t),
      model_access_control = access_control t, model_updated_at = updated_at t,
      model_created_at = created_at t, user = u\<rparr>"

definition get_tool_by_id :: "app_state \<Rightarrow> string \<Rightarrow> tool_model option" where
  "get_tool_by_id st i =
     (case get_row (tool_table st) i of
        None \<Rightarrow> None
      | Some t \<Rightarrow> Some (to_tool_model t (fixed_specs (specs t))))"

text \<open>
  The dictionary \<open>updated\<close> of \<^verbatim>\<open>update_tool_by_id\<close>: the columns the callers set.
\<close>

record tool_update =
  set_name :: "string option"
  set_content :: "string option"
  set_specs :: "py_dict list option"
  set_meta :: "py_dict option"
  set_access_control :: "acl option option"

definition no_update :: tool_update where
  "no_update =
     \<lparr>set_name = None, set_content = None, set_specs = None, set_meta = None,
      set_access_control = None\<rparr>"

definition apply_update :: "tool_update \<Rightarrow> int \<Rightarrow> tool \<Rightarrow> tool" where
  "apply_update upd now t =
     t\<lparr>name := (case set_name upd of None \<Rightarrow> name t | Some n \<Rightarrow> n),
       content := (case set_content upd of None \<Rightarrow> content t | Some c \<Rightarrow> c),
       specs := (case set_specs upd of None \<Rightarrow> specs t | Some sp \<Rightarrow> SpecsList sp),
       meta := (case set_meta upd of None \<Rightarrow> meta t | Some m \<Rightarrow> m),
       access_control :=
         (case set_access_control upd of None \<Rightarrow> access_control t | Some a \<Rightarrow> a),
       updated_at := now\<rparr>"

text \<open>
  \<open>now\<close> is \<^verbatim>\<open>int(time.time())\<close>. A request reads the clock several times within
  the same second; the model passes one reading through the whole request.
\<close>

definition update_tool_by_id ::
  "int \<Rightarrow> app_state \<Rightarrow> string \<Rightarrow> tool_update \<Rightarrow> app_state \<times> tool_model option" where
  "update_tool_by_id now st i upd =
     (let st' = st\<lparr>tool_table := update_row i (apply_update upd now) (tool_table st)\<rparr>
      in (st', get_tool_by_id st' i))"

definition system_user_placeholder :: user_response where
  "system_user_placeholder =
     \<lparr>uid = ''system'', uname = ''WeidSyntara'', role = ''system'',
      email = ''system@local.host'', profile_image_url = []\<rparr>"

definition get_tools :: "app_state \<Rightarrow> tool_user_model list" where
  "get_tools st =
     map (\<lambda>t.
            let tool_model = to_tool_user_model t (fixed_specs (specs t)) (joined_user st t)
            in if model_user_id tool_model = None then
                 tool_model\<lparr>user := Some system_user_placeholder,
                            model_content :=
                              (if model_content tool_model = [] then ''A WeidSyntara system tool.''
                               else model_content tool_model)\<rparr>
               else tool_model)
         (order_by_updated_at_desc (tool_table st))"



text \<open>
  Modelled from the spec: \<^verbatim>\<open>has_access\<close> of open_webui.utils.access_control is not under
  src/. A null descriptor is public read and owner write; otherwise the permission is held
  by the principals and groups the descriptor lists for it.
\<close>

definition has_access :: "env \<Rightarrow> string \<Rightarrow> string \<Rightarrow> acl option \<Rightarrow> bool" where
  "has_access e u permission ac =
     (case ac of
        None \<Rightarrow> permission = ''read''
      | Some d \<Rightarrow>
          (case map_of d permission of
             None \<Rightarrow> False
           | Some g \<Rightarrow> u \<in> set (user_ids g) \<or> (\<exists>gid \<in> set (groups_of e u). gid \<in> set (group_ids g))))"




text \<open>
  Modelled from the spec: \<^verbatim>\<open>Functions.get_function_by_id\<close> of
  open_webui.models.functions is not under src/. It is the record store's look-up of a row
  by id (the spec's section 6), here on the table of functions.
\<close>

definition get_function_by_id :: "app_state \<Rightarrow> string \<Rightarrow> function_row option" where
  "get_function_by_id st i = find (\<lambda>f. function_id f = i) (function_table st)"

text \<open>
  Modelled from the spec: \<^verbatim>\<open>Functions.update_function_by_id\<close> is not under src/. It is
  the record store's update of fields of the row with the id.
\<close>

definition update_function_by_id ::
  "app_state \<Rightarrow> string \<Rightarrow> (function_row \<Rightarrow> function_row) \<Rightarrow> app_state" where
  "update_function_by_id st i f =
     st\<lparr>function_table := map (\<lambda>r. if function_id r = i then f r else r) (function_table st)\<rparr>"

text \<open>
  Modelled from the spec: \<^verbatim>\<open>Functions.get_functions(active_only=True)\<close> is not under
  src/. It lists the rows that are active.
\<close>

definition get_functions_active_only :: "app_state \<Rightarrow> function_row list" where
  "get_functions_active_only st = filter is_active (function_table st)"

section \<open>Loading and dependencies (utils/plugin.py)\<close>

definition pip_command :: "env \<Rightarrow> string list \<Rightarrow> string list" where
  "pip_command e req_list =
     [sys_executable e, ''-m'', ''pip'', ''install''] @ PIP_OPTIONS e @ req_list
       @ PIP_PACKAGE_INDEX_OPTIONS e"

definition install_frontmatter_requirements :: "env \<Rightarrow> app_state \<Rightarrow> string \<Rightarrow> unit result" where
  "install_frontmatter_requirements e st requirements =
     (if requirements \<noteq> [] then
        (let req_list =
               filter (\<lambda>req. req \<noteq> []) (map py_strip (py_split CHR '','' requirements))
         in if req_list = [] then (st, Inr ())
            else (let st' = st\<lparr>pip_log := pip_log st @ [pip_command e req_list]\<rparr>
                  in if pip_succeeds e req_list then (st', Inr ())
                     else (st', Inl CalledProcessError)))
      else (st, Inr ()))"

text \<open>\<^verbatim>\<open>frontmatter.get("requirements", "")\<close>.\<close>

definition requirements_of :: "frontmatter \<Rightarrow> string" where
  "requirements_of fm = (case map_of fm ''requirements'' of None \<Rightarrow> [] | Some r \<Rightarrow> r)"

text \<open>The path of the source file of a file-resident system tool.\<close>

definition system_tool_path :: "env \<Rightarrow> string \<Rightarrow> string" where
  "system_tool_path e i =
     (let tool_name = py_replace1 ''custom_'' [] i;
          tools_dir = (case TOOLS_DIR e of None \<Rightarrow> ''/app/weidsyntara/tools'' | Some d \<Rightarrow> d)
      in path_join tools_dir (tool_name @ ''.py''))"

text \<open>
  The common tail of the loader: execute the text and instantiate \<^verbatim>\<open>Tools\<close>. The entry
  in \<^verbatim>\<open>sys.modules\<close> and the temporary file are not modelled.
\<close>

definition exec_tool_source ::
  "env \<Rightarrow> app_state \<Rightarrow> string \<Rightarrow> py_error \<Rightarrow> (tools_obj \<times> frontmatter) result" where
  "exec_tool_source e st src missing =
     (let st' = st\<lparr>exec_log := exec_log st @ [src]\<rparr> in
      case py_exec e src of
        None \<Rightarrow> (st', Inl ExecError)
      | Some ns \<Rightarrow>
          (case ns_Tools ns of
             Some obj \<Rightarrow> (st', Inr (obj, extract_frontmatter src))
           | None \<Rightarrow> (st', Inl missing)))"

definition content_only :: "string \<Rightarrow> tool_update" where
  "content_only c = no_update\<lparr>set_content := Some c\<rparr>"

definition load_tool_module_by_id ::
  "env \<Rightarrow> int \<Rightarrow> app_state \<Rightarrow> string \<Rightarrow> string option \<Rightarrow> (tools_obj \<times> frontmatter) result" where
  "load_tool_module_by_id e now st i content_arg =
     (if prefix ''custom_'' i then
        (case files e (system_tool_path e i) of
           None \<Rightarrow> (st, Inl FileNotFoundError)
         | Some file_content \<Rightarrow> exec_tool_source e st file_content NoToolsClassInFile)
      else
        (case content_arg of
           None \<Rightarrow>
             (case get_tool_by_id st i of
                None \<Rightarrow> (st, Inl ToolkitNotFound)
              | Some t \<Rightarrow>
                  (let c = replace_imports (model_content t);
                       st1 = fst (update_tool_by_id now st i (content_only c))
                   in exec_tool_source e st1 c NoToolsClass))
         | Some c \<Rightarrow>
             (case install_frontmatter_requirements e st
                     (requirements_of (extract_frontmatter c)) of
                (st1, Inl err) \<Rightarrow> (st1, Inl err)
              | (st1, Inr _) \<Rightarrow> exec_tool_source e st1 c NoToolsClass)))"

definition set_function_content :: "string \<Rightarrow> function_row \<Rightarrow> function_row" where
  "set_function_content c r = r\<lparr>function_content := c\<rparr>"

definition deactivate :: "function_row \<Rightarrow> function_row" where
  "deactivate r = r\<lparr>is_active := False\<rparr>"

definition load_function_module_by_id ::
  "env \<Rightarrow> app_state \<Rightarrow> string \<Rightarrow> string option \<Rightarrow>
   (function_obj \<times> string \<times> frontmatter) result" where
  "load_function_module_by_id e st i content_arg =
     (let prepared =
            (case content_arg of
               None \<Rightarrow>
                 (case get_function_by_id st i of
                    None \<Rightarrow> (st, Inl FunctionNotFound)
                  | Some f \<Rightarrow>
                      (let c = replace_imports (function_content f)
                       in (update_function_by_id st i (set_function_content c), Inr c)))
             | Some c \<Rightarrow>
                 (case install_frontmatter_requirements e st
                         (requirements_of (extract_frontmatter c)) of
                    (st1, Inl err) \<Rightarrow> (st1, Inl err)
                  | (st1, Inr _) \<Rightarrow> (st1, Inr c)))
      in case prepared of
           (st1, Inl err) \<Rightarrow> (st1, Inl err)
         | (st1, Inr c) \<Rightarrow>
             (let st2 = st1\<lparr>exec_log := exec_log st1 @ [c]\<rparr>;
                  failed = (\<lambda>err. (update_function_by_id st2 i deactivate, Inl err))
              in case py_exec e c of
                   None \<Rightarrow> failed ExecError
                 | Some ns \<Rightarrow>
                     (case ns_Pipe ns of
                        Some obj \<Rightarrow> (st2, Inr (obj, ''pipe'', extract_frontmatter c))
                      | None \<Rightarrow>
                     (case ns_Filter ns of
                        Some obj \<Rightarrow> (st2, Inr (obj, ''filter'', extract_frontmatter c))
                      | None \<Rightarrow>
                     (case ns_Action ns of
                        Some obj \<Rightarrow> (st2, Inr (obj, ''action'', extract_frontmatter c))
                      | None \<Rightarrow> failed NoFunctionClass)))))"

text \<open>
  The test that guards the cache hit: both attributes exist, both hold the id, and the
  stored source text equals \<open>c\<close>.
\<close>

definition cached_function :: "app_state \<Rightarrow> string \<Rightarrow> string \<Rightarrow> function_obj option" where
  "cached_function st i c =
     (case (FUNCTION_CONTENTS st, FUNCTIONS st) of
        (Some contents, Some functions) \<Rightarrow>
          (case (contents i, functions i) of
             (Some snapshot, Some obj) \<Rightarrow> (if snapshot = c then Some obj else None)
           | _ \<Rightarrow> None)
      | _ \<Rightarrow> None)"

definition the_map :: "('k \<rightharpoonup> 'v) option \<Rightarrow> ('k \<rightharpoonup> 'v)" where
  "the_map m = (case m of None \<Rightarrow> Map.empty | Some f \<Rightarrow> f)"

definition get_function_module_from_cache ::
  "env \<Rightarrow> app_state \<Rightarrow> string \<Rightarrow> bool \<Rightarrow>
   (function_obj \<times> string option \<times> frontmatter option) result" where
  "get_function_module_from_cache e st i load_from_db =
     (if load_from_db then
        (case get_function_by_id st i of
           None \<Rightarrow> (st, Inl FunctionNotFound)
         | Some f \<Rightarrow>
             (let new_content = replace_imports (function_content f);
                  st1 = (if new_content \<noteq> function_content f
                         then update_function_by_id st i (set_function_content new_content)
                         else st)
              in case cached_function st1 i new_content of
                   Some obj \<Rightarrow> (st1, Inr (obj, None, None))
                 | None \<Rightarrow>
                     (case load_function_module_by_id e st1 i (Some new_content) of
                        (st2, Inl err) \<Rightarrow> (st2, Inl err)
                      | (st2, Inr (function_module, function_type, fm)) \<Rightarrow>
                          (st2\<lparr>FUNCTIONS := Some ((the_map (FUNCTIONS st2))(i \<mapsto> function_module)),
                               FUNCTION_CONTENTS :=
                                 Some ((the_map (FUNCTION_CONTENTS st2))(i \<mapsto> new_content))\<rparr>,
                           Inr (function_module, Some function_type, Some fm)))))
      else
        (case the_map (FUNCTIONS st) i of
           Some obj \<Rightarrow> (st, Inr (obj, None, None))
         | None \<Rightarrow>
             (case load_function_module_by_id e st i None of
                (st2, Inl err) \<Rightarrow> (st2, Inl err)
              | (st2, Inr (function_module, function_type, fm)) \<Rightarrow>
                  (st2\<lparr>FUNCTIONS := Some ((the_map (FUNCTIONS st2))(i \<mapsto> function_module)),
                       FUNCTION_CONTENTS := Some (the_map (FUNCTION_CONTENTS st2))\<rparr>,
                   Inl UnboundLocalError))))"

text \<open>
  \<^verbatim>\<open>all_dependencies\<close> is a Python set; the model keeps its elements in a list without
  repetition, in the order they were first added (Python fixes no order).
\<close>

definition set_add :: "string \<Rightarrow> string list \<Rightarrow> string list" where
  "set_add x xs = (if x \<in> set xs then xs else xs @ [x])"

definition add_dependencies :: "frontmatter \<Rightarrow> string list \<Rightarrow> string list" where
  "add_dependencies fm all_dependencies =
     (case map_of fm ''requirements'' of
        None \<Rightarrow> all_dependencies
      | Some dependencies \<Rightarrow>
          (if dependencies \<noteq> [] then
             fold (\<lambda>dep acc. set_add (py_strip dep) acc) (py_split CHR '','' dependencies)
               all_dependencies
           else all_dependencies))"

text \<open>The frontmatter the batch entry point gathers for one element of \<^verbatim>\<open>Tools.get_tools()\<close>.\<close>

definition tool_frontmatter :: "env \<Rightarrow> tool_user_model \<Rightarrow> frontmatter" where
  "tool_frontmatter e t =
     (if model_user_id t = None \<and> prefix ''custom_'' (model_id t) then
        (case files e (system_tool_path e (model_id t)) of
           None \<Rightarrow> []
         | Some file_content \<Rightarrow> extract_frontmatter file_content)
      else if (case user t of None \<Rightarrow> False | Some u \<Rightarrow> role u = ''admin'') then
        extract_frontmatter (replace_imports (model_content t))
      else [])"

definition collect_dependencies :: "env \<Rightarrow> app_state \<Rightarrow> string list" where
  "collect_dependencies e st =
     (let function_list = get_functions_active_only st;
          tool_list = get_tools st;
          deps1 = fold (\<lambda>f acc.
                          add_dependencies
                            (extract_frontmatter (replace_imports (function_content f))) acc)
                    function_list []
      in fold (\<lambda>t acc. add_dependencies (tool_frontmatter e t) acc) tool_list deps1)"

definition install_tool_and_function_dependencies :: "env \<Rightarrow> app_state \<Rightarrow> app_state" where
  "install_tool_and_function_dependencies e st =
     (let all_dependencies = collect_dependencies e st in
      if all_dependencies \<noteq> [] then
        fst (install_frontmatter_requirements e st (py_join '', '' all_dependencies))
      else st)"

section \<open>The request handlers (routers/tools.py)\<close>

text \<open>
  The block each handler that needs a live module repeats: take the module from
  \<^verbatim>\<open>request.app.state.TOOLS\<close> when the id is there, load it and store it otherwise.
\<close>

definition tools_module_for :: "env \<Rightarrow> int \<Rightarrow> app_state \<Rightarrow> string \<Rightarrow> tools_obj result" where
  "tools_module_for e now st i =
     (case TOOLS st i of
        Some tools_module \<Rightarrow> (st, Inr tools_module)
      | None \<Rightarrow>
          (case load_tool_module_by_id e now st i None of
             (st1, Inl err) \<Rightarrow> (st1, Inl err)
           | (st1, Inr (tools_module, _)) \<Rightarrow>
               (st1\<lparr>TOOLS := (TOOLS st1)(i \<mapsto> tools_module)\<rparr>, Inr tools_module)))"

definition personal_copy_id :: "string \<Rightarrow> string \<Rightarrow> string" where
  "personal_copy_id i u = i @ ''_user_'' @ u"

definition get_tools_valves_by_id ::
  "app_state \<Rightarrow> string \<Rightarrow> user_response \<Rightarrow> py_error + py_dict option" where
  "get_tools_valves_by_id st i usr =
     (case find (\<lambda>t. tool_id t = personal_copy_id i (uid usr) \<and> user_id t = Some (uid usr))
             (tool_table st) of
        Some personal_copy \<Rightarrow> Inr (valves personal_copy)
      | None \<Rightarrow>
          (case get_row (tool_table st) i of
             None \<Rightarrow> Inl (HTTPException 404 NOT_FOUND)
           | Some tool_blueprint \<Rightarrow>
               (if user_id tool_blueprint \<noteq> None \<and> user_id tool_blueprint \<noteq> Some (uid usr)
                   \<and> role usr \<noteq> ''admin''
                then Inl (HTTPException 401 UNAUTHORIZED)
                else Inr (valves tool_blueprint))))"

definition get_tools_valves_spec_by_id ::
  "env \<Rightarrow> int \<Rightarrow> app_state \<Rightarrow> string \<Rightarrow> user_response \<Rightarrow> json option result" where
  "get_tools_valves_spec_by_id e now st i usr =
     (case get_tool_by_id st i of
        None \<Rightarrow> (st, Inl (HTTPException 404 NOT_FOUND))
      | Some t \<Rightarrow>
          (if role usr \<noteq> ''admin'' \<and> model_user_id t \<noteq> None \<and> model_user_id t \<noteq> Some (uid usr)
           then (st, Inl (HTTPException 401 UNAUTHORIZED))
           else (case tools_module_for e now st i of
                   (st1, Inl err) \<Rightarrow> (st1, Inl err)
                 | (st1, Inr tools_module) \<Rightarrow>
                     (st1, Inr (map_option model_json_schema (Valves tools_module))))))"

text \<open>\<^verbatim>\<open>{k: v for k, v in form_data.items() if v is not None}\<close>.\<close>

definition drop_nulls :: "py_dict \<Rightarrow> py_dict" where
  "drop_nulls form_data = filter (\<lambda>(k, v). v \<noteq> JNull) form_data"

text \<open>\<^verbatim>\<open>{"parent_tool_id": id, **meta}\<close>: the keys of \<open>meta\<close> are written after, and win.\<close>

definition personal_copy_meta :: "string \<Rightarrow> py_dict \<Rightarrow> py_dict" where
  "personal_copy_meta i m =
     fold (\<lambda>(k, v) d. AList.update k v d) m [(''parent_tool_id'', JStr i)]"

definition new_personal_copy ::
  "int \<Rightarrow> string \<Rightarrow> user_response \<Rightarrow> tool \<Rightarrow> py_dict \<Rightarrow> tool" where
  "new_personal_copy now i usr tool_blueprint form_data =
     \<lparr>tool_id = personal_copy_id i (uid usr),
      user_id = Some (uid usr),
      name = name tool_blueprint,
      content = content tool_blueprint,
      specs = specs tool_blueprint,
      meta = personal_copy_meta i (meta tool_blueprint),
      valves = Some form_data,
      access_control = None,
      updated_at = now,
      created_at = now\<rparr>"

text \<open>
  From the module load to the commit. \<open>pending\<close> is the row added to the session and not yet
  written; a raise before the commit rolls it back, while what the loader wrote through its
  own session stays.
\<close>

definition set_valves :: "py_dict \<Rightarrow> int \<Rightarrow> tool \<Rightarrow> tool" where
  "set_valves validated_valves now t = t\<lparr>valves := Some validated_valves, updated_at := now\<rparr>"

definition validate_and_commit ::
  "env \<Rightarrow> int \<Rightarrow> app_state \<Rightarrow> tool option \<Rightarrow> string \<Rightarrow> string \<Rightarrow> py_dict \<Rightarrow> py_dict result" where
  "validate_and_commit e now st pending target blueprint_id_for_module_load form_data =
     (case tools_module_for e now st blueprint_id_for_module_load of
        (st1, Inl err) \<Rightarrow> (st1, Inl err)
      | (st1, Inr tools_module) \<Rightarrow>
          (case Valves tools_module of
             None \<Rightarrow> (st1, Inl (HTTPException 400 NoValvesSupport))
           | Some V \<Rightarrow>
               (case validate_dump V (drop_nulls form_data) of
                  None \<Rightarrow> (st1, Inl ValidationError)
                | Some validated_valves \<Rightarrow>
                    (let rows = (case pending of
                                   None \<Rightarrow> tool_table st1
                                 | Some personal_copy \<Rightarrow> tool_table st1 @ [personal_copy]);
                         rows' = update_row target (set_valves validated_valves now) rows
                     in (st1\<lparr>tool_table := rows'\<rparr>, Inr validated_valves)))))"

definition update_tools_valves_by_id ::
  "env \<Rightarrow> int \<Rightarrow> app_state \<Rightarrow> string \<Rightarrow> py_dict \<Rightarrow> user_response \<Rightarrow> py_dict result" where
  "update_tools_valves_by_id e now st i form_data usr =
     (let attempt =
            (case find (\<lambda>t. tool_id t = i \<and> user_id t = None) (tool_table st) of
               None \<Rightarrow>
                 (case find (\<lambda>t. tool_id t = i \<and> user_id t = Some (uid usr)) (tool_table st) of
                    None \<Rightarrow> (st, Inl (HTTPException 404 NOT_FOUND))
                  | Some user_tool \<Rightarrow>
                      validate_and_commit e now st None (tool_id user_tool) (tool_id user_tool)
                        form_data)
             | Some tool_blueprint \<Rightarrow>
                 (case get_row (tool_table st) (personal_copy_id i (uid usr)) of
                    None \<Rightarrow>
                      validate_and_commit e now st
                        (Some (new_personal_copy now i usr tool_blueprint form_data))
                        (personal_copy_id i (uid usr)) (tool_id tool_blueprint) form_data
                  | Some personal_copy \<Rightarrow>
                      validate_and_commit e now st None (tool_id personal_copy)
                        (tool_id tool_blueprint) form_data))
      in case attempt of
           (st1, Inl err) \<Rightarrow> (st1, Inl (HTTPException 400 (DEFAULT err)))
         | (st1, Inr v) \<Rightarrow> (st1, Inr v))"

text \<open>\<^verbatim>\<open>form_data.model_dump(exclude={"id"}, exclude_unset=True)\<close>.\<close>

definition dump_form :: "tool_form \<Rightarrow> tool_update" where
  "dump_form form_data =
     \<lparr>set_name = form_name form_data,
      set_content = form_content form_data,
      set_specs = None,
      set_meta = map_option dump_tool_meta (form_meta form_data),
      set_access_control = form_access_control form_data\<rparr>"

text \<open>
  The branch of \<^verbatim>\<open>update_tools_by_id\<close> for a system tool. \<open>t\<close> is a \<^verbatim>\<open>ToolModel\<close>, so
  \<^verbatim>\<open>tool.meta\<close> is a \<^verbatim>\<open>ToolMeta\<close> object and not a mapping: unpacking it with \<^verbatim>\<open>**\<close>
  raises \<^verbatim>\<open>TypeError\<close>.
\<close>

definition update_system_tool ::
  "int \<Rightarrow> app_state \<Rightarrow> string \<Rightarrow> tool_model \<Rightarrow> tool_update \<Rightarrow> tool_model result" where
  "update_system_tool now st i t updated_data =
     (case set_meta updated_data of
        Some m \<Rightarrow> (st, Inl TypeError)
      | None \<Rightarrow>
          (case set_name updated_data of
             None \<Rightarrow> (st, Inr t)
           | Some n \<Rightarrow>
               (case update_tool_by_id now st i (no_update\<lparr>set_name := Some n\<rparr>) of
                  (st1, Some updated_tool) \<Rightarrow> (st1, Inr updated_tool)
                | (st1, None) \<Rightarrow> (st1, Inl (HTTPException 400 ErrorUpdatingTool)))))"

text \<open>The branch for a tool that has an owner: reload the module and write every field.\<close>

definition update_user_tool ::
  "env \<Rightarrow> int \<Rightarrow> app_state \<Rightarrow> string \<Rightarrow> tool_form \<Rightarrow> tool_update \<Rightarrow> tool_model result" where
  "update_user_tool e now st i form_data updated_data =
     (case form_content form_data of
        None \<Rightarrow> (st, Inl AttributeError)
      | Some c \<Rightarrow>
          (case load_tool_module_by_id e now st i (Some (replace_imports c)) of
             (st1, Inl err) \<Rightarrow> (st1, Inl err)
           | (st1, Inr (tool_module, fm)) \<Rightarrow>
               (case set_meta updated_data of
                  None \<Rightarrow> (st1, Inl KeyError)
                | Some m \<Rightarrow>
                    (let m' = AList.update ''manifest''
                                (JObj (map (\<lambda>(k, v). (k, JStr v)) fm)) m;
                         st2 = st1\<lparr>TOOLS := (TOOLS st1)(i \<mapsto> tool_module)\<rparr>;
                         upd = updated_data\<lparr>set_meta := Some m',
                                 set_specs := Some (get_tool_specs e tool_module)\<rparr>
                     in case update_tool_by_id now st2 i upd of
                          (st3, Some updated_tool) \<Rightarrow> (st3, Inr updated_tool)
                        | (st3, None) \<Rightarrow> (st3, Inl (HTTPException 400 ErrorUpdatingTool))))))"

definition update_tools_by_id ::
  "env \<Rightarrow> int \<Rightarrow> app_state \<Rightarrow> string \<Rightarrow> tool_form \<Rightarrow> user_response \<Rightarrow> tool_model result" where
  "update_tools_by_id e now st i form_data usr =
     (case get_tool_by_id st i of
        None \<Rightarrow> (st, Inl (HTTPException 404 NOT_FOUND))
      | Some t \<Rightarrow>
          (if model_user_id t \<noteq> None \<and> model_user_id t \<noteq> Some (uid usr)
              \<and> \<not> has_access e (uid usr) ''write'' (model_access_control t)
              \<and> role usr \<noteq> ''admin''
           then (st, Inl (HTTPException 401 UNAUTHORIZED))
           else
             (let updated_data = dump_form form_data;
                  attempt = (if model_user_id t = None
                             then update_system_tool now st i t updated_data
                             else update_user_tool e now st i form_data updated_data)
              in case attempt of
                   (st1, Inl err) \<Rightarrow> (st1, Inl (HTTPException 400 (DEFAULT err)))
                 | (st1, Inr updated_tool) \<Rightarrow> (st1, Inr updated_tool))))"

section \<open>Notions used in the statements\<close>





text \<open>
  A replacement text \<open>n\<close> is clean for a legacy prefix \<open>p\<close> when \<open>p\<close> neither occurs in
  \<open>n\<close> nor can begin or end inside it.
\<close>

definition clean :: "string \<Rightarrow> string \<Rightarrow> bool" where
  "clean p n =
     (length p \<le> length n \<and> \<not> sublist p n \<and>
      list_all (\<lambda>k. \<not> prefix (drop k p) n \<and> \<not> suffix (take k p) n) [1..<length p])"

text \<open>
  What a module load may do to the table: nothing, or write a source text and the time to
  the rows with the id \<open>i\<close>.
\<close>

definition touched :: "int \<Rightarrow> string \<Rightarrow> tool list \<Rightarrow> tool list \<Rightarrow> bool" where
  "touched now i rows rows' =
     (rows' = rows \<or> (\<exists>c. rows' = update_row i (apply_update (content_only c) now) rows))"



text \<open>A text is trimmed when it neither begins nor ends with white space.\<close>

definition trimmed :: "string \<Rightarrow> bool" where
  "trimmed x = (x = [] \<or> (\<not> py_isspace (hd x) \<and> \<not> py_isspace (last x)))"

text \<open>The entries a frontmatter declares under \<^verbatim>\<open>requirements\<close>.\<close>

definition declared_entries :: "frontmatter \<Rightarrow> string set" where
  "declared_entries fm =
     (case map_of fm ''requirements'' of
        None \<Rightarrow> {}
      | Some d \<Rightarrow> if d = [] then {} else py_strip ` set (py_split CHR '','' d))"

text \<open>
  The frontmatter the batch entry point reads for a row of the tool table: that of the file
  for an ownerless \<^verbatim>\<open>custom_\<close> tool whose file can be read, that of the stored source for
  a tool whose owner is an administrator, none for any other tool.
\<close>

definition row_frontmatter :: "env \<Rightarrow> app_state \<Rightarrow> tool \<Rightarrow> frontmatter" where
  "row_frontmatter e st t =
     (case user_id t of
        None \<Rightarrow>
          (if prefix ''custom_'' (tool_id t) then
             (case files e (system_tool_path e (tool_id t)) of
                None \<Rightarrow> []
              | Some file_content \<Rightarrow> extract_frontmatter file_content)
           else [])
      | Some u \<Rightarrow>
          (case joined_user st t of
             None \<Rightarrow> []
           | Some owner \<Rightarrow>
               if role owner = ''admin'' then extract_frontmatter (replace_imports (content t))
               else []))"

definition declared_dependencies :: "env \<Rightarrow> app_state \<Rightarrow> string set" where
  "declared_dependencies e st =
     (\<Union>f \<in> set (filter is_active (function_table st)).
         declared_entries (extract_frontmatter (replace_imports (function_content f)))) \<union>
     (\<Union>t \<in> set (tool_table st). declared_entries (row_frontmatter e st t))"

text \<open>
  The reading of the claim: the entries declared in the source of every tool in the store
  and of every active function.
\<close>

definition declared_in_every_source :: "app_state \<Rightarrow> string set" where
  "declared_in_every_source st =
     (\<Union>f \<in> set (filter is_active (function_table st)).
         declared_entries (extract_frontmatter (replace_imports (function_content f)))) \<union>
     (\<Union>t \<in> set (tool_table st).
         declared_entries (extract_frontmatter (replace_imports (content t))))"

text \<open>A dependency entry: trimmed, and without a comma.\<close>

definition entry :: "string \<Rightarrow> bool" where
  "entry d = (trimmed d \<and> CHR '','' \<notin> set d)"

text \<open>What the statements below read off a row, and off the text a module would be built from.\<close>

definition row_summary :: "tool \<Rightarrow> string \<times> string option \<times> py_dict option \<times> string" where
  "row_summary t = (tool_id t, user_id t, valves t, content t)"

definition copy_summary :: "tool \<Rightarrow> string \<times> py_dict option \<times> py_dict \<times> py_dict option" where
  "copy_summary t = (tool_id t, valves t, meta t, manifest (to_tool_meta (meta t)))"

definition built_label :: "env \<Rightarrow> string \<Rightarrow> string option" where
  "built_label e src =
     (case py_exec e src of
        None \<Rightarrow> None
      | Some ns \<Rightarrow> map_option obj_label (ns_Tools ns))"

section \<open>Example inputs\<close>



text \<open>
  A world in which every source text executes, yields a \<^verbatim>\<open>Tools\<close> instance labelled
  with the text it was built from and carrying a \<^verbatim>\<open>Valves\<close> class that accepts every
  dictionary, and yields a \<^verbatim>\<open>Pipe\<close>; pip succeeds; there are no files and no groups.
\<close>

definition demo_valves :: valves_class where
  "demo_valves =
     \<lparr>model_json_schema = JObj [(''title'', JStr ''Valves'')], validate_dump = (\<lambda>d. Some d)\<rparr>"

definition demo_obj :: "string \<Rightarrow> tools_obj" where
  "demo_obj src = \<lparr>obj_label = src, Valves = Some demo_valves, UserValves = None\<rparr>"

definition demo_env :: env where
  "demo_env =
     \<lparr>py_exec = (\<lambda>src. Some \<lparr>ns_Tools = Some (demo_obj src), ns_Pipe = Some (FunctionObj src),
                              ns_Filter = None, ns_Action = None\<rparr>),
      files = Map.empty,
      TOOLS_DIR = None,
      pip_succeeds = (\<lambda>reqs. True),
      sys_executable = ''python'',
      PIP_OPTIONS = [],
      PIP_PACKAGE_INDEX_OPTIONS = [],
      groups_of = (\<lambda>u. []),
      get_tool_specs = (\<lambda>obj. [])\<rparr>"

definition demo_tool :: "string \<Rightarrow> string option \<Rightarrow> string \<Rightarrow> int \<Rightarrow> tool" where
  "demo_tool i owner src t =
     \<lparr>tool_id = i, user_id = owner, name = i, content = src, specs = SpecsList [],
      meta = [(''description'', JStr ''demo'')], valves = Some [], access_control = None,
      updated_at = t, created_at = t\<rparr>"

definition demo_user :: "string \<Rightarrow> string \<Rightarrow> user_response" where
  "demo_user u r = \<lparr>uid = u, uname = u, role = r, email = [], profile_image_url = []\<rparr>"

definition demo_state :: "tool list \<Rightarrow> app_state" where
  "demo_state rows =
     \<lparr>tool_table = rows, function_table = [], user_table = [], TOOLS = Map.empty,
      FUNCTIONS = None, FUNCTION_CONTENTS = None, exec_log = [], pip_log = []\<rparr>"

definition fresh_state :: app_state where
  "fresh_state = demo_state [demo_tool ''t'' (Some ''bob'') ''import os'' 1]"

definition stale_state :: app_state where
  "stale_state = demo_state [demo_tool ''t'' (Some ''bob'') ''from utils import x'' 1]"

text \<open>The spec's scenario: the system blueprint \<^verbatim>\<open>weather\<close> and its users.\<close>

definition weather :: tool where
  "weather = demo_tool ''weather'' None ''from utils import x'' 1"

definition alice :: user_response where
  "alice = demo_user ''alice'' ''user''"

definition bob :: user_response where
  "bob = demo_user ''bob'' ''user''"

definition carol :: user_response where
  "carol = demo_user ''carol'' ''user''"

definition root_admin :: user_response where
  "root_admin = demo_user ''root'' ''admin''"

definition celsius :: py_dict where
  "celsius = [(''unit'', JStr ''celsius'')]"

definition celsius_with_null :: py_dict where
  "celsius_with_null = [(''unit'', JStr ''celsius''), (''api_key'', JNull)]"

definition weather_state :: app_state where
  "weather_state = demo_state [weather]"

text \<open>A store in which the id derived for alice is already the id of a tool of bob.\<close>

definition clash_state :: app_state where
  "clash_state =
     demo_state [weather, demo_tool ''weather_user_alice'' (Some ''bob'') ''import os'' 1]"

text \<open>A tool of bob whose descriptor grants carol both read and write.\<close>

definition carol_grant :: access_grant where
  "carol_grant = \<lparr>group_ids = [], user_ids = [''carol'']\<rparr>"

definition bob_notes :: tool where
  "bob_notes =
     (demo_tool ''notes'' (Some ''bob'') ''import os'' 1)
       \<lparr>access_control := Some [(''read'', carol_grant), (''write'', carol_grant)]\<rparr>"

definition notes_state :: app_state where
  "notes_state = demo_state [bob_notes]"

text \<open>Two update forms for the blueprint: one that sets the name only, one that sets nothing.\<close>

definition rename_form :: tool_form where
  "rename_form =
     \<lparr>form_id = ''weather'', form_name = Some ''forecast'', form_content = None,
      form_meta = None, form_access_control = None\<rparr>"

definition unset_form :: tool_form where
  "unset_form =
     \<lparr>form_id = ''weather'', form_name = None, form_content = None,
      form_meta = None, form_access_control = None\<rparr>"


text \<open>A store with one active function whose source still has a legacy import.\<close>

definition demo_function :: function_row where
  "demo_function =
     \<lparr>function_id = ''f'', function_content = ''from utils import x'', is_active = True\<rparr>"

definition function_state :: app_state where
  "function_state = (demo_state [])\<lparr>function_table := [demo_function]\<rparr>"

text \<open>
  A tool of bob is loaded through the schema handler at time 5, and its source is edited
  in the store at time 6.
\<close>

definition loaded_then_edited :: app_state where
  "loaded_then_edited =
     fst (update_tool_by_id 6
            (fst (get_tools_valves_spec_by_id demo_env 5
                    (demo_state [demo_tool ''t'' (Some ''bob'') ''import a'' 1]) ''t'' bob))
            ''t'' (content_only ''import b''))"

text \<open>
  A store for the batch entry point: a tool of the administrator and a tool of bob, an
  active and an inactive function, each declaring requirements.
\<close>

definition with_requirements :: "string \<Rightarrow> string" where
  "with_requirements reqs =
     triple_quote @ ''requirements: '' @ reqs @ triple_quote @ [newline] @ ''class Tools: pass''"

definition deps_state :: app_state where
  "deps_state =
     (demo_state
        [demo_tool ''admin_tool'' (Some ''root'') (with_requirements ''foo, bar'') 2,
         demo_tool ''bob_tool'' (Some ''bob'') (with_requirements ''baz'') 1])
       \<lparr>user_table := [root_admin, bob],
        function_table :=
          [\<lparr>function_id = ''f'', function_content = with_requirements ''bar,qux'',
            is_active = True\<rparr>,
           \<lparr>function_id = ''g'', function_content = with_requirements ''zzz'',
            is_active = False\<rparr>]\<rparr>"

text \<open>A store whose only tool belongs to bob, who is not an administrator.\<close>

definition bob_only_state :: app_state where
  "bob_only_state =
     (demo_state [demo_tool ''bob_tool'' (Some ''bob'') (with_requirements ''foo'') 1])
       \<lparr>user_table := [bob]\<rparr>"

section \<open>Properties: strings, frontmatter, import rewriting\<close>



subsection \<open>The loop over the lines of the block\<close>






subsection \<open>Replacing text\<close>

lemma py_replace_absent:
  "old \<noteq> [] \<Longrightarrow> \<not> sublist old s \<Longrightarrow> py_replace old new s = s"
  by (induction s) (auto simp: sublist_Cons_right)

text \<open>Where \<open>old\<close> occurs, the text splits at its first occurrence.\<close>

lemma py_replace_first:
  "old \<noteq> [] \<Longrightarrow> sublist old s \<Longrightarrow>
   \<exists>a b. s = a @ old @ b \<and> \<not> sublist old a \<and>
         py_replace old new s = a @ new @ py_replace old new b"
proof (induction s)
  case Nil
  then show ?case by simp
next
  case (Cons c cs)
  show ?case
  proof (cases "prefix old (c # cs)")
    case True
    then obtain b where b: "c # cs = old @ b"
      by (auto simp: prefix_def)
    then have "drop (length old) (c # cs) = b"
      by (metis append_eq_conv_conj)
    moreover have "py_replace old new (c # cs) =
        new @ py_replace old new (drop (length old) (c # cs))"
      using True Cons.prems(1) by simp
    ultimately have "c # cs = [] @ old @ b \<and> \<not> sublist old [] \<and>
          py_replace old new (c # cs) = [] @ new @ py_replace old new b"
      using b Cons.prems(1) by simp
    then show ?thesis by blast
  next
    case False
    with Cons.prems have "sublist old cs"
      by (simp add: sublist_Cons_right)
    with Cons.IH Cons.prems(1) obtain a b where
      ab: "cs = a @ old @ b" "\<not> sublist old a"
          "py_replace old new cs = a @ new @ py_replace old new b"
      by blast
    have "\<not> prefix old (c # a)"
      using False ab(1) by (metis append_Cons prefix_prefix)
    with ab(2) have "\<not> sublist old (c # a)"
      by (simp add: sublist_Cons_right)
    with ab False Cons.prems(1)
    have "c # cs = (c # a) @ old @ b \<and> \<not> sublist old (c # a) \<and>
          py_replace old new (c # cs) = (c # a) @ new @ py_replace old new b"
      by simp
    then show ?thesis by blast
  qed
qed

lemma clean_split:
  assumes "clean p n" "p = p1 @ p2" "p1 \<noteq> []" "p2 \<noteq> []"
  shows "\<not> prefix p2 (n @ r)" "\<not> suffix p1 n"
proof -
  let ?k = "length p1"
  have "0 < length p1" "0 < length p2"
    using assms(3,4) by simp_all
  then have k: "?k \<in> set [1..<length p]"
    using assms(2) by (simp add: Suc_le_eq)
  have tk: "take ?k p = p1" "drop ?k p = p2"
    using assms(2) by auto
  from assms(1) k have "\<not> prefix (drop ?k p) n \<and> \<not> suffix (take ?k p) n"
    unfolding clean_def list_all_iff by blast
  with tk have np: "\<not> prefix p2 n" and ns: "\<not> suffix p1 n" by auto
  show "\<not> suffix p1 n" by (rule ns)
  show "\<not> prefix p2 (n @ r)"
  proof
    assume "prefix p2 (n @ r)"
    then consider "prefix p2 n" | z where "p2 = n @ z"
      by (auto simp: prefix_append)
    then show False
    proof cases
      case 1 with np show False by simp
    next
      case 2
      with assms(2,3) have "length n < length p" by (cases p1) auto
      with assms(1) show False by (simp add: clean_def)
    qed
  qed
qed

text \<open>
  Replacing \<open>old\<close> by a text that is clean for \<open>p\<close> creates no occurrence of \<open>p\<close>, and
  leaves none of \<open>old\<close> itself.
\<close>

lemma sublist_py_replace:
  assumes "old \<noteq> []" "clean p new"
  shows "sublist p (py_replace old new s) \<Longrightarrow> p \<noteq> old \<and> sublist p s"
proof (induction "length s" arbitrary: s rule: less_induct)
  case less
  show ?case
  proof (cases "sublist old s")
    case False
    with assms(1) have "py_replace old new s = s"
      by (rule py_replace_absent)
    with less.prems False show ?thesis by auto
  next
    case True
    from py_replace_first[OF assms(1) True, of new] obtain a b where
      ab: "s = a @ old @ b" "\<not> sublist old a"
          "py_replace old new s = a @ new @ py_replace old new b"
      by blast
    let ?r = "py_replace old new b"
    have lt: "length b < length s"
      using ab(1) assms(1) by (cases old) auto
    have in_a: "sublist p a \<Longrightarrow> p \<noteq> old \<and> sublist p s"
    proof -
      assume pa: "sublist p a"
      then have "sublist p s" unfolding ab(1)
        by (meson sublist_append_rightI sublist_order.order_trans)
      moreover from pa ab(2) have "p \<noteq> old" by auto
      ultimately show ?thesis by simp
    qed
    have in_r: "sublist p ?r \<Longrightarrow> p \<noteq> old \<and> sublist p s"
    proof -
      assume "sublist p ?r"
      from less.hyps[OF lt this] have "p \<noteq> old" "sublist p b" by auto
      moreover have "sublist b s" unfolding ab(1)
        by (metis append_assoc sublist_append_leftI)
      ultimately show ?thesis using sublist_order.order_trans by blast
    qed
    have nn: "\<not> sublist p new" using assms(2) by (simp add: clean_def)
    have in_nr: "sublist p (new @ ?r) \<Longrightarrow> p \<noteq> old \<and> sublist p s"
    proof -
      assume "sublist p (new @ ?r)"
      then consider "sublist p new" | "sublist p ?r"
        | p1 p2 where "p = p1 @ p2" "suffix p1 new" "prefix p2 ?r"
        by (auto simp: sublist_append)
      then show ?thesis
      proof cases
        case 1 with nn show ?thesis by simp
      next
        case 2 then show ?thesis by (rule in_r)
      next
        case 3
        show ?thesis
        proof (cases "p1 = [] \<or> p2 = []")
          case True
          then show ?thesis
          proof
            assume "p1 = []"
            with 3 have "sublist p ?r" by auto
            then show ?thesis by (rule in_r)
          next
            assume "p2 = []"
            with 3 have "sublist p new" by auto
            with nn show ?thesis by simp
          qed
        next
          case False
          with clean_split(2)[OF assms(2) 3(1)] 3(2) show ?thesis by blast
        qed
      qed
    qed
    from less.prems ab(3) have "sublist p (a @ (new @ ?r))" by simp
    then consider "sublist p a" | "sublist p (new @ ?r)"
      | p1 p2 where "p = p1 @ p2" "suffix p1 a" "prefix p2 (new @ ?r)"
      by (auto simp: sublist_append)
    then show ?thesis
    proof cases
      case 1 then show ?thesis by (rule in_a)
    next
      case 2 then show ?thesis by (rule in_nr)
    next
      case 3
      show ?thesis
      proof (cases "p1 = [] \<or> p2 = []")
        case True
        then show ?thesis
        proof
          assume "p1 = []"
          with 3 have "sublist p (new @ ?r)" by auto
          then show ?thesis by (rule in_nr)
        next
          assume "p2 = []"
          with 3 have "sublist p a" by auto
          then show ?thesis by (rule in_a)
        qed
      next
        case False
        with clean_split(1)[OF assms(2) 3(1), of ?r] 3(3) show ?thesis by blast
      qed
    qed
  qed
qed

subsection \<open>The import rewrite\<close>

lemma clean_table:
  "list_all (\<lambda>p. list_all (\<lambda>n. clean p n) (map snd replacements)) (map fst replacements)"
  by code_simp

lemma clean_pair:
  "(p, n') \<in> set replacements \<Longrightarrow> (q, n) \<in> set replacements \<Longrightarrow> clean p n"
  using clean_table unfolding list_all_iff by force

lemma replace_imports_unfold:
  "replace_imports s =
     py_replace ''from config'' ''from open_webui.config''
      (py_replace ''from main'' ''from open_webui.main''
        (py_replace ''from apps'' ''from open_webui.apps''
          (py_replace ''from utils'' ''from open_webui.utils'' s)))"
  by (simp add: replace_imports_def replacements_def)

text \<open>No legacy prefix is left in a rewritten text.\<close>

lemma replace_imports_no_legacy:
  assumes "(p, n) \<in> set replacements"
  shows "\<not> sublist p (replace_imports s)"
proof
  assume a: "sublist p (replace_imports s)"
  have c: "\<And>q m. (q, m) \<in> set replacements \<Longrightarrow> clean p m"
    using assms clean_pair by blast
  have c1: "clean p ''from open_webui.utils''" "clean p ''from open_webui.apps''"
    "clean p ''from open_webui.main''" "clean p ''from open_webui.config''"
    by (rule c, simp add: replacements_def)+
  let ?s1 = "py_replace ''from utils'' ''from open_webui.utils'' s"
  let ?s2 = "py_replace ''from apps'' ''from open_webui.apps'' ?s1"
  let ?s3 = "py_replace ''from main'' ''from open_webui.main'' ?s2"
  from a have "sublist p (py_replace ''from config'' ''from open_webui.config'' ?s3)"
    by (simp add: replace_imports_unfold)
  then have 4: "p \<noteq> ''from config''" "sublist p ?s3"
    using sublist_py_replace[OF _ c1(4)] by blast+
  then have 3: "p \<noteq> ''from main''" "sublist p ?s2"
    using sublist_py_replace[OF _ c1(3)] by blast+
  then have 2: "p \<noteq> ''from apps''" "sublist p ?s1"
    using sublist_py_replace[OF _ c1(2)] by blast+
  then have 1: "p \<noteq> ''from utils''"
    using sublist_py_replace[OF _ c1(1)] by blast
  from assms 1 2(1) 3(1) 4(1) show False
    by (auto simp: replacements_def)
qed

lemma replace_imports_idem: "replace_imports (replace_imports s) = replace_imports s"
proof -
  let ?r = "replace_imports s"
  have "\<not> sublist ''from utils'' ?r" "\<not> sublist ''from apps'' ?r"
       "\<not> sublist ''from main'' ?r" "\<not> sublist ''from config'' ?r"
    by (rule replace_imports_no_legacy, simp add: replacements_def)+
  then show ?thesis
    by (simp add: replace_imports_unfold[of ?r] py_replace_absent)
qed

section \<open>Properties: the record store and the loader\<close>

lemma get_row_update_row:
  "(\<And>t. tool_id (f t) = tool_id t) \<Longrightarrow>
   get_row (update_row i f rows) j =
     (if j = i then map_option f (get_row rows i) else get_row rows j)"
  by (induction rows) (auto simp: get_row_def update_row_def)

lemma tool_id_apply_update [simp]: "tool_id (apply_update upd now t) = tool_id t"
  by (simp add: apply_update_def)

lemma exec_tool_source_table [simp]:
  "tool_table (fst (exec_tool_source e st src missing)) = tool_table st"
  by (simp add: exec_tool_source_def Let_def split: option.splits)

lemma install_frontmatter_requirements_table [simp]:
  "tool_table (fst (install_frontmatter_requirements e st reqs)) = tool_table st"
  by (simp add: install_frontmatter_requirements_def Let_def)

text \<open>A load from the record store writes the rewritten text and the time, always.\<close>

lemma load_tool_module_by_id_table:
  assumes "\<not> prefix ''custom_'' i" "get_row (tool_table st) i = Some t"
  shows "tool_table (fst (load_tool_module_by_id e now st i None)) =
     update_row i (\<lambda>r. r\<lparr>content := replace_imports (content t), updated_at := now\<rparr>)
       (tool_table st)"
proof -
  have "apply_update (content_only c) now = (\<lambda>r. r\<lparr>content := c, updated_at := now\<rparr>)" for c
    by (rule ext) (simp add: apply_update_def content_only_def no_update_def)
  with assms show ?thesis
    by (simp add: load_tool_module_by_id_def get_tool_by_id_def Let_def update_tool_by_id_def
        to_tool_model_def)
qed

lemma load_tool_module_by_id_custom_table:
  assumes "prefix ''custom_'' i"
  shows "tool_table (fst (load_tool_module_by_id e now st i c)) = tool_table st"
  using assms by (simp add: load_tool_module_by_id_def split: option.splits)

text \<open>
  Claim C7, as amended. The import rewrite is idempotent as a text function. A load without
  a source override of a tool kept in the record store (an id that does not start with
  \<^verbatim>\<open>custom_\<close>) writes the rewritten source and the current time to the record on every
  load, whether or not the text differs from the stored one; the text it leaves is a fixed
  point of the rewrite, so only the first such write can change the source. A load of a
  file-resident tool writes nothing to the store.
\<close>

theorem replace_imports_idempotent_load_always_writes:
  "replace_imports (replace_imports s) = replace_imports s \<and>
   (\<not> prefix ''custom_'' i \<and> get_row (tool_table st) i = Some t \<longrightarrow>
      tool_table (fst (load_tool_module_by_id e now st i None)) =
        update_row i (\<lambda>r. r\<lparr>content := replace_imports (content t), updated_at := now\<rparr>)
          (tool_table st) \<and>
      (\<exists>t'. get_row (tool_table (fst (load_tool_module_by_id e now st i None))) i = Some t' \<and>
            content t' = replace_imports (content t) \<and> updated_at t' = now \<and>
            replace_imports (content t') = content t')) \<and>
   (prefix ''custom_'' i \<longrightarrow>
      tool_table (fst (load_tool_module_by_id e now st i None)) = tool_table st)"
proof (intro conjI impI)
  show "replace_imports (replace_imports s) = replace_imports s"
    by (rule replace_imports_idem)
next
  assume a: "\<not> prefix ''custom_'' i \<and> get_row (tool_table st) i = Some t"
  then show tab: "tool_table (fst (load_tool_module_by_id e now st i None)) =
        update_row i (\<lambda>r. r\<lparr>content := replace_imports (content t), updated_at := now\<rparr>)
          (tool_table st)"
    by (simp add: load_tool_module_by_id_table)
  let ?t' = "t\<lparr>content := replace_imports (content t), updated_at := now\<rparr>"
  from a have "get_row (tool_table (fst (load_tool_module_by_id e now st i None))) i = Some ?t'"
    unfolding tab by (subst get_row_update_row) simp_all
  then show "\<exists>t'. get_row (tool_table (fst (load_tool_module_by_id e now st i None))) i = Some t' \<and>
            content t' = replace_imports (content t) \<and> updated_at t' = now \<and>
            replace_imports (content t') = content t'"
    by (simp add: replace_imports_idem)
next
  assume "prefix ''custom_'' i"
  then show "tool_table (fst (load_tool_module_by_id e now st i None)) = tool_table st"
    by (rule load_tool_module_by_id_custom_table)
qed

theorem replace_imports_idempotent_load_always_writes_witness:
  "\<not> prefix ''custom_'' ''t'' \<and>
   get_row (tool_table stale_state) ''t'' =
     Some (demo_tool ''t'' (Some ''bob'') ''from utils import x'' 1) \<and>
   tool_table (fst (load_tool_module_by_id demo_env 5 stale_state ''t'' None)) =
     [(demo_tool ''t'' (Some ''bob'') ''from open_webui.utils import x'' 1)\<lparr>updated_at := 5\<rparr>] \<and>
   prefix ''custom_'' ''custom_t'' \<and>
   tool_table (fst (load_tool_module_by_id demo_env 5 stale_state ''custom_t'' None)) =
     tool_table stale_state"
proof -
  have n: "\<not> prefix ''custom_'' ''t''" by simp
  have g: "get_row (tool_table stale_state) ''t'' =
     Some (demo_tool ''t'' (Some ''bob'') ''from utils import x'' 1)"
    by (simp add: stale_state_def demo_state_def get_row_def demo_tool_def)
  have r: "replace_imports ''from utils import x'' = ''from open_webui.utils import x''"
    by code_simp
  have p: "prefix ''custom_'' ''custom_t''" by simp
  from replace_imports_idempotent_load_always_writes
         [of _ "''t''" stale_state "demo_tool ''t'' (Some ''bob'') ''from utils import x'' 1"
             demo_env 5] n g
  have "tool_table (fst (load_tool_module_by_id demo_env 5 stale_state ''t'' None)) =
        update_row ''t''
          (\<lambda>r. r\<lparr>content := replace_imports
                               (content (demo_tool ''t'' (Some ''bob'') ''from utils import x'' 1)),
                 updated_at := 5\<rparr>)
          (tool_table stale_state)"
    by blast
  then have 1: "tool_table (fst (load_tool_module_by_id demo_env 5 stale_state ''t'' None)) =
     [(demo_tool ''t'' (Some ''bob'') ''from open_webui.utils import x'' 1)\<lparr>updated_at := 5\<rparr>]"
    using r by (simp add: stale_state_def demo_state_def demo_tool_def update_row_def)
  from replace_imports_idempotent_load_always_writes
         [of _ "''custom_t''" stale_state _ demo_env 5] p
  have 2: "tool_table (fst (load_tool_module_by_id demo_env 5 stale_state ''custom_t'' None)) =
     tool_table stale_state"
    by blast
  from n g 1 p 2 show ?thesis by blast
qed

text \<open>
  The claim as stated fails: the source of the record below holds no legacy prefix, so the
  rewritten text equals the stored one, and still each of two loads writes the record.
\<close>

theorem load_writes_unchanged_source_counterexample:
  "replace_imports ''import os'' = ''import os'' \<and>
   map content (tool_table fresh_state) = [''import os''] \<and>
   map updated_at (tool_table fresh_state) = [1] \<and>
   map updated_at
     (tool_table (fst (load_tool_module_by_id demo_env 5 fresh_state ''t'' None))) = [5] \<and>
   map updated_at
     (tool_table (fst (load_tool_module_by_id demo_env 9
        (fst (load_tool_module_by_id demo_env 5 fresh_state ''t'' None)) ''t'' None))) = [9]"
  by code_simp

section \<open>Properties: configuration reads and writes\<close>

lemma get_row_None_iff: "get_row rows i = None \<longleftrightarrow> i \<notin> tool_id ` set rows"
  by (auto simp: get_row_def find_None_iff)

lemma get_row_Some_id: "get_row rows i = Some t \<Longrightarrow> tool_id t = i \<and> t \<in> set rows"
  by (auto simp: get_row_def find_Some_iff)

lemma find_id_and:
  "distinct (map tool_id rows) \<Longrightarrow>
   find (\<lambda>t. tool_id t = i \<and> Q t) rows =
     (case get_row rows i of None \<Rightarrow> None | Some t \<Rightarrow> if Q t then Some t else None)"
proof (induction rows)
  case Nil
  then show ?case by (simp add: get_row_def)
next
  case (Cons a rows)
  show ?case
  proof (cases "tool_id a = i")
    case True
    with Cons.prems have "i \<notin> tool_id ` set rows" by auto
    then have "find (\<lambda>t. tool_id t = i \<and> Q t) rows = None"
      by (auto simp: find_None_iff)
    with True show ?thesis by (simp add: get_row_def)
  next
    case False
    with Cons show ?thesis by (simp add: get_row_def)
  qed
qed

lemma get_row_append:
  "get_row (rows @ [t]) j =
     (case get_row rows j of Some x \<Rightarrow> Some x | None \<Rightarrow> if tool_id t = j then Some t else None)"
  by (induction rows) (auto simp: get_row_def)

lemma map_tool_id_update_row:
  "(\<And>t. tool_id (f t) = tool_id t) \<Longrightarrow> map tool_id (update_row i f rows) = map tool_id rows"
  by (induction rows) (auto simp: update_row_def)

lemma update_row_absent: "get_row rows i = None \<Longrightarrow> update_row i f rows = rows"
  by (induction rows) (auto simp: update_row_def get_row_def split: if_splits)

lemma touched_refl [simp]: "touched now i rows rows"
  by (simp add: touched_def)

lemma load_tool_module_by_id_touched:
  "touched now i (tool_table st) (tool_table (fst (load_tool_module_by_id e now st i None)))"
  by (auto simp: touched_def load_tool_module_by_id_def get_tool_by_id_def Let_def
      update_tool_by_id_def split: option.splits)

lemma tools_module_for_touched:
  "touched now i (tool_table st) (tool_table (fst (tools_module_for e now st i)))"
  using load_tool_module_by_id_touched[of now i st e]
  by (auto simp: tools_module_for_def split: option.splits prod.splits sum.splits)

lemma tools_module_for_cached:
  "tools_module_for e now st i = (st1, Inr m) \<Longrightarrow> TOOLS st1 i = Some m"
  by (auto simp: tools_module_for_def split: option.splits prod.splits sum.splits)



lemma validate_and_commit_Inr:
  assumes "validate_and_commit e now st pending target b form_data = (st', Inr v)"
  shows "\<exists>st1 m V. tools_module_for e now st b = (st1, Inr m) \<and> Valves m = Some V \<and>
           validate_dump V (drop_nulls form_data) = Some v \<and>
           st' = st1\<lparr>tool_table := update_row target (set_valves v now)
                    (case pending of None \<Rightarrow> tool_table st1
                     | Some personal_copy \<Rightarrow> tool_table st1 @ [personal_copy])\<rparr>"
  using assms
  by (auto simp: validate_and_commit_def Let_def
      split: prod.splits sum.splits option.splits)

lemma validate_and_commit_Inr_iff:
  "(\<exists>st'. validate_and_commit e now st pending target b form_data = (st', Inr v)) \<longleftrightarrow>
   (\<exists>m V. snd (tools_module_for e now st b) = Inr m \<and> Valves m = Some V \<and>
           validate_dump V (drop_nulls form_data) = Some v)"
  by (auto simp: validate_and_commit_def Let_def
      split: prod.splits sum.splits option.splits)

lemma personal_copy_id_neq [simp]: "personal_copy_id i u \<noteq> i"
proof
  assume "personal_copy_id i u = i"
  then have "length (personal_copy_id i u) = length i" by simp
  then show False by (simp add: personal_copy_id_def)
qed

lemma personal_copy_id_neq' [simp]: "i \<noteq> personal_copy_id i u"
  using personal_copy_id_neq[of i u] by metis

lemma personal_copy_id_inj [simp]: "personal_copy_id i u = personal_copy_id i u' \<longleftrightarrow> u = u'"
  by (simp add: personal_copy_id_def)

lemma tool_id_set_valves [simp]: "tool_id (set_valves v now t) = tool_id t"
  by (simp add: set_valves_def)

text \<open>What a successful write against a system blueprint leaves.\<close>

lemma write_system_effect:
  assumes pk: "distinct (map tool_id (tool_table st))"
    and B: "get_row (tool_table st) i = Some B" "user_id B = None"
    and ok: "update_tools_valves_by_id e now st i cfg usr = (st', Inr v)"
  shows "\<exists>st1 m V. tools_module_for e now st i = (st1, Inr m) \<and> Valves m = Some V \<and>
           validate_dump V (drop_nulls cfg) = Some v \<and>
           st' = st1\<lparr>tool_table := update_row (personal_copy_id i (uid usr)) (set_valves v now)
                    (case get_row (tool_table st) (personal_copy_id i (uid usr)) of
                       None \<Rightarrow> tool_table st1 @ [new_personal_copy now i usr B cfg]
                     | Some personal_copy \<Rightarrow> tool_table st1)\<rparr>"
proof -
  from B have idB: "tool_id B = i" by (auto dest: get_row_Some_id)
  from pk B have f: "find (\<lambda>t. tool_id t = i \<and> user_id t = None) (tool_table st) = Some B"
    by (simp add: find_id_and)
  show ?thesis
  proof (cases "get_row (tool_table st) (personal_copy_id i (uid usr))")
    case None
    with ok f idB have "validate_and_commit e now st (Some (new_personal_copy now i usr B cfg))
        (personal_copy_id i (uid usr)) i cfg = (st', Inr v)"
      by (auto simp: update_tools_valves_by_id_def Let_def split: prod.splits sum.splits)
    from validate_and_commit_Inr[OF this] None show ?thesis by simp
  next
    case (Some pc)
    then have "tool_id pc = personal_copy_id i (uid usr)" by (auto dest: get_row_Some_id)
    with ok f idB Some have "validate_and_commit e now st None
        (personal_copy_id i (uid usr)) i cfg = (st', Inr v)"
      by (auto simp: update_tools_valves_by_id_def Let_def split: prod.splits sum.splits)
    from validate_and_commit_Inr[OF this] Some show ?thesis by simp
  qed
qed


lemma touched_rows:
  assumes "touched now i rows rows'"
  shows "map tool_id rows' = map tool_id rows"
    and "\<And>j. j \<noteq> i \<Longrightarrow> get_row rows' j = get_row rows j"
    and "\<And>B. get_row rows i = Some B \<Longrightarrow>
           \<exists>B'. get_row rows' i = Some B' \<and>
                (B' = B \<or> (\<exists>c. B' = B\<lparr>content := c, updated_at := now\<rparr>))"
proof -
  have au: "apply_update (content_only c) now t = t\<lparr>content := c, updated_at := now\<rparr>" for c t
    by (simp add: apply_update_def content_only_def no_update_def)
  from assms consider "rows' = rows"
    | c where "rows' = update_row i (apply_update (content_only c) now) rows"
    by (auto simp: touched_def)
  note cases = this
  show "map tool_id rows' = map tool_id rows"
    using cases by cases (simp_all add: map_tool_id_update_row)
  show "get_row rows' j = get_row rows j" if "j \<noteq> i" for j
    using cases that by cases (simp_all add: get_row_update_row)
  show "\<exists>B'. get_row rows' i = Some B' \<and>
                (B' = B \<or> (\<exists>c. B' = B\<lparr>content := c, updated_at := now\<rparr>))"
    if "get_row rows i = Some B" for B
    using cases that
  proof cases
    case 1
    with that show ?thesis by simp
  next
    case (2 c)
    with that have "get_row rows' i = Some (B\<lparr>content := c, updated_at := now\<rparr>)"
      by (simp add: get_row_update_row au)
    then show ?thesis by blast
  qed
qed

lemma write_system_rows:
  assumes pk: "distinct (map tool_id (tool_table st))"
    and B: "get_row (tool_table st) i = Some B" "user_id B = None"
    and ok: "update_tools_valves_by_id e now st i cfg usr = (st', Inr v)"
  shows "distinct (map tool_id (tool_table st'))"
    and "get_row (tool_table st') (personal_copy_id i (uid usr)) =
           Some (set_valves v now
             (case get_row (tool_table st) (personal_copy_id i (uid usr)) of
                None \<Rightarrow> new_personal_copy now i usr B cfg
              | Some personal_copy \<Rightarrow> personal_copy))"
    and "\<exists>B'. get_row (tool_table st') i = Some B' \<and>
              (B' = B \<or> (\<exists>c. B' = B\<lparr>content := c, updated_at := now\<rparr>))"
    and "\<And>j. j \<noteq> i \<Longrightarrow> j \<noteq> personal_copy_id i (uid usr) \<Longrightarrow>
           get_row (tool_table st') j = get_row (tool_table st) j"
    and "\<exists>m V. TOOLS st' i = Some m \<and> Valves m = Some V \<and>
              validate_dump V (drop_nulls cfg) = Some v"
proof -
  let ?p = "personal_copy_id i (uid usr)"
  let ?T = "tool_table st"
  from write_system_effect[OF pk B ok] obtain st1 m V where
    tm: "tools_module_for e now st i = (st1, Inr m)" and V: "Valves m = Some V"
    and val: "validate_dump V (drop_nulls cfg) = Some v"
    and st': "st' = st1\<lparr>tool_table := update_row ?p (set_valves v now)
                    (case get_row ?T ?p of
                       None \<Rightarrow> tool_table st1 @ [new_personal_copy now i usr B cfg]
                     | Some personal_copy \<Rightarrow> tool_table st1)\<rparr>"
    by blast
  let ?T1 = "tool_table st1"
  let ?rows = "case get_row ?T ?p of
                 None \<Rightarrow> ?T1 @ [new_personal_copy now i usr B cfg]
               | Some personal_copy \<Rightarrow> ?T1"
  have T': "tool_table st' = update_row ?p (set_valves v now) ?rows"
    by (simp add: st')
  from tools_module_for_touched[of now i st e] tm
  have t: "touched now i ?T ?T1" by simp
  note tr = touched_rows[OF t]
  have idnew: "tool_id (new_personal_copy now i usr B cfg) = ?p"
    by (simp add: new_personal_copy_def)
  have ids: "map tool_id (tool_table st') = map tool_id ?rows"
    unfolding T' by (simp add: map_tool_id_update_row)
  have drows: "distinct (map tool_id ?rows)"
  proof (cases "get_row ?T ?p")
    case None
    then have "?p \<notin> tool_id ` set ?T" by (simp add: get_row_None_iff)
    then have "?p \<notin> set (map tool_id ?T1)" using tr(1) by (metis set_map)
    with None pk tr(1) idnew show ?thesis by simp
  next
    case (Some pc)
    with pk tr(1) show ?thesis by simp
  qed
  with ids show "distinct (map tool_id (tool_table st'))" by simp
  have gp: "get_row ?rows ?p =
      Some (case get_row ?T ?p of
              None \<Rightarrow> new_personal_copy now i usr B cfg
            | Some personal_copy \<Rightarrow> personal_copy)"
  proof (cases "get_row ?T ?p")
    case None
    moreover from None have "get_row ?T1 ?p = None" using tr(2)[of ?p] by simp
    ultimately show ?thesis by (simp add: get_row_append idnew)
  next
    case (Some pc)
    moreover from Some have "get_row ?T1 ?p = Some pc" using tr(2)[of ?p] by simp
    ultimately show ?thesis by simp
  qed
  then show "get_row (tool_table st') ?p =
           Some (set_valves v now
             (case get_row ?T ?p of
                None \<Rightarrow> new_personal_copy now i usr B cfg
              | Some personal_copy \<Rightarrow> personal_copy))"
    unfolding T' by (simp add: get_row_update_row)
  have other: "get_row (tool_table st') j = get_row ?T1 j" if "j \<noteq> ?p" for j
  proof -
    have "get_row (tool_table st') j = get_row ?rows j"
      unfolding T' using that by (simp add: get_row_update_row)
    also have "\<dots> = get_row ?T1 j"
      using that
      by (cases "get_row ?T ?p") (simp_all add: get_row_append idnew split: option.splits)
    finally show ?thesis .
  qed
  have "get_row (tool_table st') i = get_row ?T1 i"
    by (rule other) simp
  with tr(3)[OF B(1)]
  show "\<exists>B'. get_row (tool_table st') i = Some B' \<and>
              (B' = B \<or> (\<exists>c. B' = B\<lparr>content := c, updated_at := now\<rparr>))"
    by simp
  show "get_row (tool_table st') j = get_row ?T j" if "j \<noteq> i" "j \<noteq> ?p" for j
    using other[OF that(2)] tr(2)[OF that(1)] by simp
  from tools_module_for_cached[OF tm] have "TOOLS st' i = Some m"
    by (simp add: st')
  with V val show "\<exists>m V. TOOLS st' i = Some m \<and> Valves m = Some V \<and>
              validate_dump V (drop_nulls cfg) = Some v"
    by blast
qed

lemma map_of_fold_update:
  "map_of (fold (\<lambda>(k, v) d. AList.update k v d) m d) = map_of d ++ map_of (rev m)"
  by (induction m arbitrary: d) (auto simp: update_conv' map_add_upd_left fun_eq_iff map_add_def split: option.splits)

lemma map_of_rev_distinct: "distinct (map fst m) \<Longrightarrow> map_of (rev m) = map_of m"
  by (rule ext) (metis distinct_rev map_of_eq_Some_iff not_Some_eq rev_map set_rev map_of_eq_None_iff set_map)

lemma personal_copy_meta_map_of:
  "distinct (map fst m) \<Longrightarrow>
   map_of (personal_copy_meta i m) k =
     (case map_of m k of
        Some x \<Rightarrow> Some x
      | None \<Rightarrow> if k = ''parent_tool_id'' then Some (JStr i) else None)"
  by (simp add: personal_copy_meta_def map_of_fold_update map_of_rev_distinct map_add_def
      split: option.splits)

text \<open>
  Claim C2, as amended. The ids of the table are distinct, as its primary key has them.
  Let \<open>B\<close> be a system blueprint and let the id derived from
  \<open>B\<close> and the user \<open>U\<close> be free or held by a record that \<open>U\<close> owns. When a write of
  \<open>cfg\<close> for \<open>(B, U)\<close> succeeds with the value \<open>v\<close>: \<open>v\<close> is \<open>cfg\<close> as validated by
  the \<^verbatim>\<open>Valves\<close> class of the cached module of \<open>B\<close>; reading for \<open>(B, U)\<close> returns
  \<open>v\<close>; the configuration of \<open>B\<close> is unchanged, and \<open>B\<close> itself is unchanged but for the
  source text and time the loader may write; reading for any other user without an override
  of their own returns the configuration of \<open>B\<close>; every record other than \<open>B\<close> and the
  override is unchanged.
\<close>

theorem personal_override_roundtrip:
  assumes pk: "distinct (map tool_id (tool_table st))"
    and B: "get_row (tool_table st) i = Some B" "user_id B = None"
    and own: "\<forall>t. get_row (tool_table st) (personal_copy_id i (uid usr)) = Some t \<longrightarrow>
                 user_id t = Some (uid usr)"
    and ok: "update_tools_valves_by_id e now st i cfg usr = (st', Inr v)"
  shows "get_tools_valves_by_id st' i usr = Inr (Some v) \<and>
         (\<exists>m V. TOOLS st' i = Some m \<and> Valves m = Some V \<and>
                validate_dump V (drop_nulls cfg) = Some v) \<and>
         (\<exists>B'. get_row (tool_table st') i = Some B' \<and> valves B' = valves B \<and>
               (B' = B \<or> (\<exists>c. B' = B\<lparr>content := c, updated_at := now\<rparr>))) \<and>
         (\<forall>usr2. uid usr2 \<noteq> uid usr \<and>
                 (\<forall>t. get_row (tool_table st) (personal_copy_id i (uid usr2)) = Some t \<longrightarrow>
                      user_id t \<noteq> Some (uid usr2))
                 \<longrightarrow> get_tools_valves_by_id st' i usr2 = Inr (valves B)) \<and>
         (\<forall>j. j \<noteq> i \<and> j \<noteq> personal_copy_id i (uid usr) \<longrightarrow>
              get_row (tool_table st') j = get_row (tool_table st) j)"
proof -
  let ?p = "personal_copy_id i (uid usr)"
  note w = write_system_rows[OF pk B ok]
  let ?pc0 = "case get_row (tool_table st) ?p of
                None \<Rightarrow> new_personal_copy now i usr B cfg
              | Some personal_copy \<Rightarrow> personal_copy"
  have u0: "user_id ?pc0 = Some (uid usr)"
    using own by (cases "get_row (tool_table st) ?p") (simp_all add: new_personal_copy_def)
  have read1: "get_tools_valves_by_id st' i usr = Inr (Some v)"
    using w(2) u0
    by (simp add: get_tools_valves_by_id_def find_id_and[OF w(1)] set_valves_def)
  from w(3) obtain B' where B': "get_row (tool_table st') i = Some B'"
      "B' = B \<or> (\<exists>c. B' = B\<lparr>content := c, updated_at := now\<rparr>)"
    by blast
  then have vB: "valves B' = valves B" "user_id B' = None"
    using B(2) by auto
  have read2: "get_tools_valves_by_id st' i usr2 = Inr (valves B)"
    if "uid usr2 \<noteq> uid usr"
      and "\<forall>t. get_row (tool_table st) (personal_copy_id i (uid usr2)) = Some t \<longrightarrow>
                      user_id t \<noteq> Some (uid usr2)" for usr2
  proof -
    let ?q = "personal_copy_id i (uid usr2)"
    have "get_row (tool_table st') ?q = get_row (tool_table st) ?q"
      using that(1) by (intro w(4)) simp_all
    with that(2)
    have "find (\<lambda>t. tool_id t = ?q \<and> user_id t = Some (uid usr2)) (tool_table st') = None"
      by (simp add: find_id_and[OF w(1)] split: option.splits)
    with B'(1) vB show ?thesis
      by (simp add: get_tools_valves_by_id_def)
  qed
  from read1 w(5) B' vB(1) read2 w(4) show ?thesis by blast
qed

theorem personal_override_roundtrip_witness:
  "distinct (map tool_id (tool_table weather_state)) \<and>
   get_row (tool_table weather_state) ''weather'' = Some weather \<and> user_id weather = None \<and>
   get_row (tool_table weather_state) (personal_copy_id ''weather'' (uid alice)) = None \<and>
   snd (update_tools_valves_by_id demo_env 5 weather_state ''weather'' celsius alice) = Inr celsius \<and>
   get_tools_valves_by_id
     (fst (update_tools_valves_by_id demo_env 5 weather_state ''weather'' celsius alice))
     ''weather'' alice = Inr (Some celsius) \<and>
   get_tools_valves_by_id
     (fst (update_tools_valves_by_id demo_env 5 weather_state ''weather'' celsius alice))
     ''weather'' bob = Inr (Some [])"
proof -
  let ?r = "update_tools_valves_by_id demo_env 5 weather_state ''weather'' celsius alice"
  have pk: "distinct (map tool_id (tool_table weather_state))" by code_simp
  have B: "get_row (tool_table weather_state) ''weather'' = Some weather" by code_simp
  have s: "user_id weather = None" by code_simp
  have n: "get_row (tool_table weather_state) (personal_copy_id ''weather'' (uid alice)) = None"
    by code_simp
  then have own: "\<forall>t. get_row (tool_table weather_state) (personal_copy_id ''weather'' (uid alice))
      = Some t \<longrightarrow> user_id t = Some (uid alice)"
    by simp
  have r: "snd ?r = Inr celsius" by code_simp
  then have ok: "?r = (fst ?r, Inr celsius)" by (metis prod.collapse)
  have nb: "get_row (tool_table weather_state) (personal_copy_id ''weather'' (uid bob)) = None"
    by code_simp
  have ub: "uid bob \<noteq> uid alice" by code_simp
  have vw: "valves weather = Some []" by code_simp
  note t = personal_override_roundtrip[OF pk B s own ok]
  from t have 1: "get_tools_valves_by_id (fst ?r) ''weather'' alice = Inr (Some celsius)"
    by blast
  from t nb ub have "get_tools_valves_by_id (fst ?r) ''weather'' bob = Inr (valves weather)"
    by simp
  with vw have 2: "get_tools_valves_by_id (fst ?r) ''weather'' bob = Inr (Some [])"
    by simp
  from pk B s n r 1 2 show ?thesis by blast
qed

text \<open>
  The claim as stated fails on the store below, where the derived id
  \<^verbatim>\<open>weather_user_alice\<close> is the id of a tool of bob: the write of alice succeeds and
  lands in the record of bob, her read still returns the configuration of the blueprint,
  and the blueprint record has been rewritten by the loader.
\<close>

theorem personal_override_roundtrip_counterexample:
  "snd (update_tools_valves_by_id demo_env 5 clash_state ''weather'' celsius alice) = Inr celsius \<and>
   get_tools_valves_by_id
     (fst (update_tools_valves_by_id demo_env 5 clash_state ''weather'' celsius alice))
     ''weather'' alice = Inr (Some []) \<and>
   map row_summary (tool_table clash_state) =
     [(''weather'', None, Some [], ''from utils import x''),
      (''weather_user_alice'', Some ''bob'', Some [], ''import os'')] \<and>
   map row_summary
     (tool_table (fst (update_tools_valves_by_id demo_env 5 clash_state ''weather'' celsius alice))) =
     [(''weather'', None, Some [], ''from open_webui.utils import x''),
      (''weather_user_alice'', Some ''bob'', Some celsius, ''import os'')]"
  by code_simp

text \<open>
  Claim C4, as amended. The ids of the table are distinct and so are the keys of the
  metadata of \<open>B\<close>. For a system blueprint \<open>B\<close> and a user with no record under the
  derived id, a successful first write creates a record owned by the user that copies
  source, specs and name from \<open>B\<close>, binds the top-level metadata key
  \<^verbatim>\<open>parent_tool_id\<close> to the id of \<open>B\<close> unless the metadata of \<open>B\<close> has that key already,
  keeps every other metadata key of \<open>B\<close> (so the manifest is that of \<open>B\<close>), and holds
  as configuration the validated form of the incoming value.
\<close>

theorem first_write_creates_personal_copy:
  assumes pk: "distinct (map tool_id (tool_table st))"
    and B: "get_row (tool_table st) i = Some B" "user_id B = None"
    and keys: "distinct (map fst (meta B))"
    and fresh: "get_row (tool_table st) (personal_copy_id i (uid usr)) = None"
    and ok: "update_tools_valves_by_id e now st i cfg usr = (st', Inr v)"
  shows "\<exists>pc. get_row (tool_table st') (personal_copy_id i (uid usr)) = Some pc \<and>
           user_id pc = Some (uid usr) \<and> content pc = content B \<and> specs pc = specs B \<and>
           name pc = name B \<and>
           (\<forall>k. map_of (meta pc) k =
                  (case map_of (meta B) k of
                     Some x \<Rightarrow> Some x
                   | None \<Rightarrow> if k = ''parent_tool_id'' then Some (JStr i) else None)) \<and>
           manifest (to_tool_meta (meta pc)) = manifest (to_tool_meta (meta B)) \<and>
           valves pc = Some v \<and>
           (\<exists>m V. TOOLS st' i = Some m \<and> Valves m = Some V \<and>
                  validate_dump V (drop_nulls cfg) = Some v)"
proof -
  let ?pc = "set_valves v now (new_personal_copy now i usr B cfg)"
  note w = write_system_rows[OF pk B ok]
  from w(2) fresh have g: "get_row (tool_table st') (personal_copy_id i (uid usr)) = Some ?pc"
    by simp
  have m: "map_of (meta ?pc) k =
                  (case map_of (meta B) k of
                     Some x \<Rightarrow> Some x
                   | None \<Rightarrow> if k = ''parent_tool_id'' then Some (JStr i) else None)" for k
    using personal_copy_meta_map_of[OF keys, of i k]
    by (simp add: set_valves_def new_personal_copy_def)
  have "manifest (to_tool_meta (meta ?pc)) = manifest (to_tool_meta (meta B))"
    by (simp add: to_tool_meta_def m split: option.splits)
  moreover have "user_id ?pc = Some (uid usr) \<and> content ?pc = content B \<and>
      specs ?pc = specs B \<and> name ?pc = name B \<and> valves ?pc = Some v"
    by (simp add: set_valves_def new_personal_copy_def)
  ultimately show ?thesis using g m w(5) by blast
qed

theorem first_write_creates_personal_copy_witness:
  "distinct (map tool_id (tool_table weather_state)) \<and>
   get_row (tool_table weather_state) ''weather'' = Some weather \<and> user_id weather = None \<and>
   distinct (map fst (meta weather)) \<and>
   get_row (tool_table weather_state) (personal_copy_id ''weather'' (uid alice)) = None \<and>
   snd (update_tools_valves_by_id demo_env 5 weather_state ''weather'' celsius alice) = Inr celsius \<and>
   (\<exists>pc. get_row
           (tool_table (fst (update_tools_valves_by_id demo_env 5 weather_state ''weather''
                               celsius alice)))
           ''weather_user_alice'' = Some pc \<and>
         user_id pc = Some ''alice'' \<and> content pc = ''from utils import x'' \<and>
         name pc = ''weather'' \<and> specs pc = SpecsList [] \<and>
         map_of (meta pc) ''parent_tool_id'' = Some (JStr ''weather'') \<and>
         valves pc = Some celsius)"
proof -
  let ?r = "update_tools_valves_by_id demo_env 5 weather_state ''weather'' celsius alice"
  have pk: "distinct (map tool_id (tool_table weather_state))" by code_simp
  have B: "get_row (tool_table weather_state) ''weather'' = Some weather" by code_simp
  have s: "user_id weather = None" by code_simp
  have k: "distinct (map fst (meta weather))" by code_simp
  have n: "get_row (tool_table weather_state) (personal_copy_id ''weather'' (uid alice)) = None"
    by code_simp
  have r: "snd ?r = Inr celsius" by code_simp
  then have ok: "?r = (fst ?r, Inr celsius)" by (metis prod.collapse)
  have p: "personal_copy_id ''weather'' (uid alice) = ''weather_user_alice''" by code_simp
  have f: "uid alice = ''alice''" "content weather = ''from utils import x''"
    "name weather = ''weather''" "specs weather = SpecsList []"
    "map_of (meta weather) ''parent_tool_id'' = None"
    by code_simp+
  from first_write_creates_personal_copy[OF pk B s k n ok] obtain pc where
    pc: "get_row (tool_table (fst ?r)) (personal_copy_id ''weather'' (uid alice)) = Some pc"
      "user_id pc = Some (uid alice)" "content pc = content weather"
      "specs pc = specs weather" "name pc = name weather"
      "\<forall>k. map_of (meta pc) k =
                  (case map_of (meta weather) k of
                     Some x \<Rightarrow> Some x
                   | None \<Rightarrow> if k = ''parent_tool_id'' then Some (JStr ''weather'') else None)"
      "valves pc = Some celsius"
    by blast
  from pc(6) f(5) have "map_of (meta pc) ''parent_tool_id'' = Some (JStr ''weather'')"
    by simp
  with pc p f have "get_row (tool_table (fst ?r)) ''weather_user_alice'' = Some pc \<and>
         user_id pc = Some ''alice'' \<and> content pc = ''from utils import x'' \<and>
         name pc = ''weather'' \<and> specs pc = SpecsList [] \<and>
         map_of (meta pc) ''parent_tool_id'' = Some (JStr ''weather'') \<and>
         valves pc = Some celsius"
    by simp
  then have "\<exists>pc. get_row (tool_table (fst ?r)) ''weather_user_alice'' = Some pc \<and>
         user_id pc = Some ''alice'' \<and> content pc = ''from utils import x'' \<and>
         name pc = ''weather'' \<and> specs pc = SpecsList [] \<and>
         map_of (meta pc) ''parent_tool_id'' = Some (JStr ''weather'') \<and>
         valves pc = Some celsius"
    by blast
  with pk B s k n r show ?thesis by blast
qed

text \<open>
  The claim as stated fails: the back-reference is a top-level key of the metadata and the
  manifest has no entry, and the stored configuration is the validated value, which here
  differs from the incoming one by the dropped null field.
\<close>

theorem first_write_creates_personal_copy_counterexample:
  "snd (update_tools_valves_by_id demo_env 5 weather_state ''weather'' celsius_with_null alice)
     = Inr celsius \<and>
   celsius \<noteq> celsius_with_null \<and>
   map copy_summary
     (tool_table
        (fst (update_tools_valves_by_id demo_env 5 weather_state ''weather'' celsius_with_null
                alice))) =
     [(''weather'', Some [], [(''description'', JStr ''demo'')], Some []),
      (''weather_user_alice'', Some celsius,
       [(''parent_tool_id'', JStr ''weather''), (''description'', JStr ''demo'')], Some [])]"
  by code_simp

text \<open>
  Claim C5, as amended. The ids of the table are distinct. For a tool owned by \<open>O\<close>, a
  configuration write by any principal
  other than \<open>O\<close>, administrators and write grantees included, fails with status 400
  wrapping the 404 of the lookup and leaves the state unchanged. A write by \<open>O\<close> succeeds
  exactly when the module of the tool is available, declares \<^verbatim>\<open>Valves\<close> and accepts the
  input; it then stores the validated value in the tool's own record and creates no record.
\<close>

theorem user_tool_write_owner_only:
  assumes pk: "distinct (map tool_id (tool_table st))"
    and T: "get_row (tool_table st) i = Some T" "user_id T = Some owner"
  shows "(uid usr \<noteq> owner \<longrightarrow>
            update_tools_valves_by_id e now st i cfg usr =
              (st, Inl (HTTPException 400 (DEFAULT (HTTPException 404 NOT_FOUND))))) \<and>
         (uid usr = owner \<longrightarrow>
            (\<forall>v. (\<exists>st'. update_tools_valves_by_id e now st i cfg usr = (st', Inr v)) \<longleftrightarrow>
                 (\<exists>m V. snd (tools_module_for e now st i) = Inr m \<and> Valves m = Some V \<and>
                        validate_dump V (drop_nulls cfg) = Some v)) \<and>
            (\<forall>st' v. update_tools_valves_by_id e now st i cfg usr = (st', Inr v) \<longrightarrow>
                 map tool_id (tool_table st') = map tool_id (tool_table st) \<and>
                 (\<exists>T'. get_row (tool_table st') i = Some T' \<and> valves T' = Some v \<and>
                       user_id T' = Some owner)))"
proof (intro conjI impI allI)
  from T have idT: "tool_id T = i" by (auto dest: get_row_Some_id)
  have nosys: "find (\<lambda>t. tool_id t = i \<and> user_id t = None) (tool_table st) = None"
    using T by (simp add: find_id_and[OF pk])
  have mine: "find (\<lambda>t. tool_id t = i \<and> user_id t = Some (uid usr)) (tool_table st) =
      (if uid usr = owner then Some T else None)"
    using T by (auto simp add: find_id_and[OF pk])
  {
    assume "uid usr \<noteq> owner"
    with nosys mine show "update_tools_valves_by_id e now st i cfg usr =
              (st, Inl (HTTPException 400 (DEFAULT (HTTPException 404 NOT_FOUND))))"
      by (simp add: update_tools_valves_by_id_def)
  }
  assume o: "uid usr = owner"
  have unf: "update_tools_valves_by_id e now st i cfg usr =
      (case validate_and_commit e now st None i i cfg of
         (st1, Inl err) \<Rightarrow> (st1, Inl (HTTPException 400 (DEFAULT err)))
       | (st1, Inr v) \<Rightarrow> (st1, Inr v))"
    using o nosys mine idT by (simp add: update_tools_valves_by_id_def)
  have eqv: "update_tools_valves_by_id e now st i cfg usr = (st', Inr v) \<longleftrightarrow>
      validate_and_commit e now st None i i cfg = (st', Inr v)" for st' v
    unfolding unf by (auto split: prod.splits sum.splits)
  show "(\<exists>st'. update_tools_valves_by_id e now st i cfg usr = (st', Inr v)) \<longleftrightarrow>
                 (\<exists>m V. snd (tools_module_for e now st i) = Inr m \<and> Valves m = Some V \<and>
                        validate_dump V (drop_nulls cfg) = Some v)" for v
    unfolding eqv by (rule validate_and_commit_Inr_iff)
  fix st' v
  assume "update_tools_valves_by_id e now st i cfg usr = (st', Inr v)"
  then have "validate_and_commit e now st None i i cfg = (st', Inr v)"
    by (simp add: eqv)
  from validate_and_commit_Inr[OF this] obtain st1 m where
    tm: "tools_module_for e now st i = (st1, Inr m)"
    and st': "st' = st1\<lparr>tool_table := update_row i (set_valves v now) (tool_table st1)\<rparr>"
    by auto
  from tools_module_for_touched[of now i st e] tm
  have t: "touched now i (tool_table st) (tool_table st1)" by simp
  note tr = touched_rows[OF t]
  show "map tool_id (tool_table st') = map tool_id (tool_table st)"
    by (simp add: st' map_tool_id_update_row tr(1))
  from tr(3)[OF T(1)] obtain T1 where T1: "get_row (tool_table st1) i = Some T1"
    "T1 = T \<or> (\<exists>c. T1 = T\<lparr>content := c, updated_at := now\<rparr>)"
    by blast
  then have "get_row (tool_table st') i = Some (set_valves v now T1)"
    by (simp add: st' get_row_update_row)
  moreover from T1(2) T(2) have "user_id (set_valves v now T1) = Some owner"
    by (auto simp: set_valves_def)
  moreover have "valves (set_valves v now T1) = Some v"
    by (simp add: set_valves_def)
  ultimately show "\<exists>T'. get_row (tool_table st') i = Some T' \<and> valves T' = Some v \<and>
                       user_id T' = Some owner"
    by blast
qed

theorem user_tool_write_owner_only_witness:
  "distinct (map tool_id (tool_table notes_state)) \<and>
   get_row (tool_table notes_state) ''notes'' = Some bob_notes \<and>
   user_id bob_notes = Some ''bob'' \<and>
   uid carol \<noteq> ''bob'' \<and>
   update_tools_valves_by_id demo_env 5 notes_state ''notes'' celsius carol =
     (notes_state, Inl (HTTPException 400 (DEFAULT (HTTPException 404 NOT_FOUND)))) \<and>
   uid bob = ''bob'' \<and>
   snd (update_tools_valves_by_id demo_env 5 notes_state ''notes'' celsius bob) = Inr celsius \<and>
   map tool_id
     (tool_table (fst (update_tools_valves_by_id demo_env 5 notes_state ''notes'' celsius bob))) =
     map tool_id (tool_table notes_state) \<and>
   (\<exists>T'. get_row
           (tool_table (fst (update_tools_valves_by_id demo_env 5 notes_state ''notes'' celsius bob)))
           ''notes'' = Some T' \<and>
         valves T' = Some celsius \<and> user_id T' = Some ''bob'')"
proof -
  let ?r = "update_tools_valves_by_id demo_env 5 notes_state ''notes'' celsius bob"
  have pk: "distinct (map tool_id (tool_table notes_state))" by code_simp
  have T: "get_row (tool_table notes_state) ''notes'' = Some bob_notes" by code_simp
  have o: "user_id bob_notes = Some ''bob''" by code_simp
  have c: "uid carol \<noteq> ''bob''" by code_simp
  have b: "uid bob = ''bob''" by code_simp
  have r: "snd ?r = Inr celsius" by code_simp
  then have ok: "?r = (fst ?r, Inr celsius)" by (metis prod.collapse)
  from user_tool_write_owner_only[OF pk T o, of carol demo_env 5 celsius] c
  have 1: "update_tools_valves_by_id demo_env 5 notes_state ''notes'' celsius carol =
     (notes_state, Inl (HTTPException 400 (DEFAULT (HTTPException 404 NOT_FOUND))))"
    by blast
  from user_tool_write_owner_only[OF pk T o, of bob demo_env 5 celsius] b ok
  have 2: "map tool_id (tool_table (fst ?r)) = map tool_id (tool_table notes_state) \<and>
     (\<exists>T'. get_row (tool_table (fst ?r)) ''notes'' = Some T' \<and>
         valves T' = Some celsius \<and> user_id T' = Some ''bob'')"
    by blast
  from pk T o c 1 b r 2 show ?thesis by blast
qed

text \<open>
  The claim as stated fails: carol holds an explicit write grant on the tool of bob and
  root is an administrator, and the write of each is refused with status 400.
\<close>

theorem user_tool_write_owner_only_counterexample:
  "user_id bob_notes = Some ''bob'' \<and>
   has_access demo_env (uid carol) ''write'' (access_control bob_notes) \<and>
   snd (update_tools_valves_by_id demo_env 5 notes_state ''notes'' celsius carol) =
     Inl (HTTPException 400 (DEFAULT (HTTPException 404 NOT_FOUND))) \<and>
   role root_admin = ''admin'' \<and>
   snd (update_tools_valves_by_id demo_env 5 notes_state ''notes'' celsius root_admin) =
     Inl (HTTPException 400 (DEFAULT (HTTPException 404 NOT_FOUND)))"
  by code_simp

text \<open>
  Claim C6, as amended. For a tool owned by \<open>O\<close> and a principal without a personal
  override, reading the configuration returns the tool's own configuration when the
  principal is \<open>O\<close> or an administrator, and fails with status 401 otherwise, whatever
  the access-control descriptor grants.
\<close>

theorem user_tool_read_owner_or_admin:
  assumes T: "get_row (tool_table st) i = Some T" "user_id T = Some owner"
    and nopc: "find (\<lambda>t. tool_id t = personal_copy_id i (uid usr) \<and> user_id t = Some (uid usr))
                 (tool_table st) = None"
  shows "get_tools_valves_by_id st i usr =
           (if uid usr = owner \<or> role usr = ''admin'' then Inr (valves T)
            else Inl (HTTPException 401 UNAUTHORIZED))"
  using assms by (auto simp: get_tools_valves_by_id_def)

theorem user_tool_read_owner_or_admin_witness:
  "get_row (tool_table notes_state) ''notes'' = Some bob_notes \<and>
   user_id bob_notes = Some ''bob'' \<and>
   find (\<lambda>t. tool_id t = personal_copy_id ''notes'' (uid bob) \<and> user_id t = Some (uid bob))
     (tool_table notes_state) = None \<and>
   find (\<lambda>t. tool_id t = personal_copy_id ''notes'' (uid root_admin) \<and>
             user_id t = Some (uid root_admin))
     (tool_table notes_state) = None \<and>
   find (\<lambda>t. tool_id t = personal_copy_id ''notes'' (uid carol) \<and> user_id t = Some (uid carol))
     (tool_table notes_state) = None \<and>
   get_tools_valves_by_id notes_state ''notes'' bob = Inr (Some []) \<and>
   get_tools_valves_by_id notes_state ''notes'' root_admin = Inr (Some []) \<and>
   get_tools_valves_by_id notes_state ''notes'' carol = Inl (HTTPException 401 UNAUTHORIZED)"
proof -
  have T: "get_row (tool_table notes_state) ''notes'' = Some bob_notes" by code_simp
  have o: "user_id bob_notes = Some ''bob''" by code_simp
  have n1: "find (\<lambda>t. tool_id t = personal_copy_id ''notes'' (uid bob) \<and>
      user_id t = Some (uid bob)) (tool_table notes_state) = None" by code_simp
  have n2: "find (\<lambda>t. tool_id t = personal_copy_id ''notes'' (uid root_admin) \<and>
      user_id t = Some (uid root_admin)) (tool_table notes_state) = None" by code_simp
  have n3: "find (\<lambda>t. tool_id t = personal_copy_id ''notes'' (uid carol) \<and>
      user_id t = Some (uid carol)) (tool_table notes_state) = None" by code_simp
  have f: "uid bob = ''bob''" "role root_admin = ''admin''" "uid carol \<noteq> ''bob''"
    "role carol \<noteq> ''admin''" "valves bob_notes = Some []"
    by code_simp+
  from user_tool_read_owner_or_admin[OF T o n1] f
  have 1: "get_tools_valves_by_id notes_state ''notes'' bob = Inr (Some [])" by simp
  from user_tool_read_owner_or_admin[OF T o n2] f
  have 2: "get_tools_valves_by_id notes_state ''notes'' root_admin = Inr (Some [])" by simp
  from user_tool_read_owner_or_admin[OF T o n3] f
  have 3: "get_tools_valves_by_id notes_state ''notes'' carol =
      Inl (HTTPException 401 UNAUTHORIZED)" by simp
  from T o n1 n2 n3 1 2 3 show ?thesis by blast
qed

text \<open>
  The claim as stated fails: the descriptor of the tool of bob grants read to carol, who is
  neither owner nor administrator and has no override, and her read is refused.
\<close>

theorem user_tool_read_owner_or_admin_counterexample:
  "user_id bob_notes = Some ''bob'' \<and>
   has_access demo_env (uid carol) ''read'' (access_control bob_notes) \<and>
   uid carol \<noteq> ''bob'' \<and> role carol \<noteq> ''admin'' \<and>
   get_row (tool_table notes_state) (personal_copy_id ''notes'' (uid carol)) = None \<and>
   get_tools_valves_by_id notes_state ''notes'' carol = Inl (HTTPException 401 UNAUTHORIZED)"
  by code_simp

section \<open>Properties: updating a system tool\<close>

lemma update_system_tool_cases:
  "update_system_tool now st i t upd = (st', r) \<Longrightarrow>
   (st' = st \<and> ((set_meta upd \<noteq> None \<and> r = Inl TypeError) \<or> (set_name upd = None \<and> set_meta upd = None \<and> r = Inr t))) \<or>
   (\<exists>n. set_name upd = Some n \<and> set_meta upd = None \<and>
        st' = st\<lparr>tool_table := update_row i (\<lambda>x. x\<lparr>name := n, updated_at := now\<rparr>) (tool_table st)\<rparr> \<and>
        r = (case get_tool_by_id st' i of None \<Rightarrow> Inl (HTTPException 400 ErrorUpdatingTool)
             | Some m \<Rightarrow> Inr m))"
proof -
  have au: "apply_update (no_update\<lparr>set_name := Some n\<rparr>) now = (\<lambda>x. x\<lparr>name := n, updated_at := now\<rparr>)" for n
    by (rule ext) (simp add: apply_update_def no_update_def)
  assume "update_system_tool now st i t upd = (st', r)"
  then show ?thesis
    by (auto simp: update_system_tool_def update_tool_by_id_def Let_def au
        split: option.splits prod.splits)
qed

text \<open>
  Claim C10. An update request against a system tool, by any principal, leaves the record
  equal to the old one but for name, meta and updated_at: content, specs and
  access_control are unchanged, in the store and in the model returned; no other record
  changes; and a request that sets neither name nor meta returns the tool as read and
  leaves the state as it was. (A request that sets meta raises in this branch and is
  answered with status 400, so that it changes nothing at all.)
\<close>

theorem system_tool_update_frame:
  assumes t: "get_row (tool_table st) i = Some t" "user_id t = None"
    and upd: "update_tools_by_id e now st i form_data usr = (st', r)"
  shows "(\<exists>t'. get_row (tool_table st') i = Some t' \<and>
               t' = t\<lparr>name := name t', meta := meta t', updated_at := updated_at t'\<rparr> \<and>
               content t' = content t \<and> specs t' = specs t \<and>
               access_control t' = access_control t) \<and>
         (\<forall>j. j \<noteq> i \<longrightarrow> get_row (tool_table st') j = get_row (tool_table st) j) \<and>
         (\<forall>m. r = Inr m \<longrightarrow> model_content m = content t \<and>
                model_specs m = fixed_specs (specs t) \<and>
                model_access_control m = access_control t) \<and>
         (form_name form_data = None \<and> form_meta form_data = None \<longrightarrow>
            st' = st \<and> r = Inr (to_tool_model t (fixed_specs (specs t))))"
proof -
  let ?m = "to_tool_model t (fixed_specs (specs t))"
  from t have g: "get_tool_by_id st i = Some ?m"
    by (simp add: get_tool_by_id_def)
  have sysm: "model_user_id ?m = None"
    using t(2) by (simp add: to_tool_model_def)
  obtain st1 r1 where us: "update_system_tool now st i ?m (dump_form form_data) = (st1, r1)"
    by (cases "update_system_tool now st i ?m (dump_form form_data)")
  with upd g sysm have st': "st' = st1"
    and r: "r = (case r1 of Inl err \<Rightarrow> Inl (HTTPException 400 (DEFAULT err)) | Inr m \<Rightarrow> Inr m)"
    by (auto simp: update_tools_by_id_def Let_def split: sum.splits)
  from update_system_tool_cases[OF us]
  show ?thesis
  proof (elim disjE conjE exE)
    assume "st1 = st" "set_meta (dump_form form_data) \<noteq> None" "r1 = Inl TypeError"
    with st' r t show ?thesis
      by (auto simp: dump_form_def)
  next
    assume "st1 = st" "set_name (dump_form form_data) = None"
      "set_meta (dump_form form_data) = None" "r1 = Inr ?m"
    with st' r t show ?thesis
      by (simp add: to_tool_model_def)
  next
    fix n
    assume a: "set_name (dump_form form_data) = Some n" "set_meta (dump_form form_data) = None"
      "st1 = st\<lparr>tool_table := update_row i (\<lambda>x. x\<lparr>name := n, updated_at := now\<rparr>) (tool_table st)\<rparr>"
      "r1 = (case get_tool_by_id st1 i of None \<Rightarrow> Inl (HTTPException 400 ErrorUpdatingTool)
             | Some m \<Rightarrow> Inr m)"
    let ?t' = "t\<lparr>name := n, updated_at := now\<rparr>"
    have gr: "get_row (tool_table st') j =
        (if j = i then Some ?t' else get_row (tool_table st) j)" for j
      using t(1) by (simp add: st' a(3) get_row_update_row)
    then have "get_tool_by_id st1 i = Some (to_tool_model ?t' (fixed_specs (specs ?t')))"
      using st' by (simp add: get_tool_by_id_def)
    with a(4) r have rr: "r = Inr (to_tool_model ?t' (fixed_specs (specs t)))"
      by simp
    have "get_row (tool_table st') i = Some ?t' \<and>
          ?t' = t\<lparr>name := name ?t', meta := meta ?t', updated_at := updated_at ?t'\<rparr> \<and>
          content ?t' = content t \<and> specs ?t' = specs t \<and>
          access_control ?t' = access_control t"
      by (simp add: gr)
    then have 1: "\<exists>t'. get_row (tool_table st') i = Some t' \<and>
               t' = t\<lparr>name := name t', meta := meta t', updated_at := updated_at t'\<rparr> \<and>
               content t' = content t \<and> specs t' = specs t \<and>
               access_control t' = access_control t"
      by blast
    have 2: "\<forall>j. j \<noteq> i \<longrightarrow> get_row (tool_table st') j = get_row (tool_table st) j"
      by (simp add: gr)
    have 3: "\<forall>m. r = Inr m \<longrightarrow> model_content m = content t \<and>
                model_specs m = fixed_specs (specs t) \<and>
                model_access_control m = access_control t"
      by (simp add: rr to_tool_model_def)
    from a(1) have 4: "\<not> (form_name form_data = None \<and> form_meta form_data = None)"
      by (simp add: dump_form_def)
    from 1 2 3 4 show ?thesis by blast
  qed
qed

theorem system_tool_update_frame_witness:
  "get_row (tool_table weather_state) ''weather'' = Some weather \<and> user_id weather = None \<and>
   form_name unset_form = None \<and> form_meta unset_form = None \<and>
   update_tools_by_id demo_env 5 weather_state ''weather'' unset_form alice =
     (weather_state, Inr (to_tool_model weather (fixed_specs (specs weather)))) \<and>
   map name (tool_table
     (fst (update_tools_by_id demo_env 5 weather_state ''weather'' rename_form alice))) =
     [''forecast''] \<and>
   (\<exists>t'. get_row (tool_table
             (fst (update_tools_by_id demo_env 5 weather_state ''weather'' rename_form alice)))
           ''weather'' = Some t' \<and>
         content t' = content weather \<and> specs t' = specs weather \<and>
         access_control t' = access_control weather)"
proof -
  let ?u = "update_tools_by_id demo_env 5 weather_state ''weather'' unset_form alice"
  let ?r = "update_tools_by_id demo_env 5 weather_state ''weather'' rename_form alice"
  have t: "get_row (tool_table weather_state) ''weather'' = Some weather" by code_simp
  have s: "user_id weather = None" by code_simp
  have f: "form_name unset_form = None" "form_meta unset_form = None" by code_simp+
  have n: "map name (tool_table (fst ?r)) = [''forecast'']" by code_simp
  have cu: "?u = (fst ?u, snd ?u)" by simp
  have cr: "?r = (fst ?r, snd ?r)" by simp
  from system_tool_update_frame[OF t s cu] f
  have "fst ?u = weather_state \<and> snd ?u = Inr (to_tool_model weather (fixed_specs (specs weather)))"
    by blast
  then have 1: "?u = (weather_state, Inr (to_tool_model weather (fixed_specs (specs weather))))"
    by (metis prod.collapse)
  from system_tool_update_frame[OF t s cr]
  have 2: "\<exists>t'. get_row (tool_table (fst ?r)) ''weather'' = Some t' \<and>
         content t' = content weather \<and> specs t' = specs weather \<and>
         access_control t' = access_control weather"
    by blast
  from t s f 1 n 2 show ?thesis by blast
qed

section \<open>Properties: listing the visible tools\<close>

lemma set_order_by [simp]: "set (order_by_updated_at_desc rows) = set rows"
  by (simp add: order_by_updated_at_desc_def)







section \<open>Properties: the module caches\<close>

lemma install_frontmatter_requirements_frame:
  "install_frontmatter_requirements e st reqs = (st1, x) \<Longrightarrow>
   exec_log st1 = exec_log st \<and> FUNCTIONS st1 = FUNCTIONS st \<and>
   FUNCTION_CONTENTS st1 = FUNCTION_CONTENTS st \<and> TOOLS st1 = TOOLS st \<and>
   function_table st1 = function_table st"
  by (auto simp: install_frontmatter_requirements_def Let_def split: if_splits)

lemma the_map_simps [simp]: "the_map (Some m) = m" "the_map None = Map.empty"
  by (simp_all add: the_map_def)

lemma cached_function_iff:
  "cached_function st i c = Some obj \<longleftrightarrow>
     the_map (FUNCTION_CONTENTS st) i = Some c \<and> the_map (FUNCTIONS st) i = Some obj"
  by (auto simp: cached_function_def the_map_def split: option.splits)

lemma load_function_module_by_id_Inr:
  assumes "load_function_module_by_id e st i (Some c) = (st', Inr (obj, ty, fm))"
  shows "exec_log st' = exec_log st @ [c] \<and> FUNCTIONS st' = FUNCTIONS st \<and>
         FUNCTION_CONTENTS st' = FUNCTION_CONTENTS st \<and> py_exec e c \<noteq> None \<and>
         function_table st' = function_table st"
  using assms
  by (auto simp: load_function_module_by_id_def Let_def
      split: prod.splits sum.splits option.splits
      dest!: install_frontmatter_requirements_frame)

lemma update_function_by_id_frame [simp]:
  "exec_log (update_function_by_id st i f) = exec_log st"
  "FUNCTIONS (update_function_by_id st i f) = FUNCTIONS st"
  "FUNCTION_CONTENTS (update_function_by_id st i f) = FUNCTION_CONTENTS st"
  by (simp_all add: update_function_by_id_def)

lemma cached_function_update [simp]:
  "cached_function (update_function_by_id st i f) j c = cached_function st j c"
  by (simp add: cached_function_def)

lemma function_cache_hit:
  assumes "get_function_by_id st i = Some f"
    and "cached_function st i (replace_imports (function_content f)) = Some obj"
  shows "snd (get_function_module_from_cache e st i True) = Inr (obj, None, None) \<and>
         exec_log (fst (get_function_module_from_cache e st i True)) = exec_log st \<and>
         FUNCTIONS (fst (get_function_module_from_cache e st i True)) = FUNCTIONS st \<and>
         FUNCTION_CONTENTS (fst (get_function_module_from_cache e st i True)) =
           FUNCTION_CONTENTS st"
proof (cases "replace_imports (function_content f) = function_content f")
  case True
  with assms show ?thesis
    by (simp add: get_function_module_from_cache_def Let_def)
next
  case False
  with assms show ?thesis
    by (simp add: get_function_module_from_cache_def Let_def)
qed

lemma function_cache_miss:
  assumes "get_function_by_id st i = Some f"
    and "cached_function st i (replace_imports (function_content f)) = None"
    and "get_function_module_from_cache e st i True = (st', Inr (obj, ty, fm))"
  shows "ty \<noteq> None \<and> exec_log st' = exec_log st @ [replace_imports (function_content f)] \<and>
         the_map (FUNCTIONS st') i = Some obj \<and>
         the_map (FUNCTION_CONTENTS st') i = Some (replace_imports (function_content f))"
  using assms
  by (auto simp: get_function_module_from_cache_def Let_def
      split: prod.splits sum.splits if_splits
      dest!: load_function_module_by_id_Inr)

lemma exec_tool_source_Inr:
  "exec_tool_source e st src missing = (st', Inr x) \<Longrightarrow>
   exec_log st' = exec_log st @ [src] \<and> TOOLS st' = TOOLS st"
  by (auto simp: exec_tool_source_def Let_def split: option.splits)

lemma load_tool_module_by_id_Inr:
  "load_tool_module_by_id e now st i None = (st', Inr x) \<Longrightarrow>
   (\<exists>src. exec_log st' = exec_log st @ [src]) \<and> TOOLS st' = TOOLS st"
  by (auto simp: load_tool_module_by_id_def Let_def update_tool_by_id_def
      split: option.splits if_splits dest!: exec_tool_source_Inr)

lemma tools_module_for_hit: "TOOLS st i = Some m \<Longrightarrow> tools_module_for e now st i = (st, Inr m)"
  by (simp add: tools_module_for_def)

lemma tools_module_for_miss:
  "TOOLS st i = None \<Longrightarrow> tools_module_for e now st i = (st', Inr m) \<Longrightarrow>
   TOOLS st' i = Some m \<and> (\<exists>src. exec_log st' = exec_log st @ [src])"
  by (auto simp: tools_module_for_def split: prod.splits sum.splits
      dest!: load_tool_module_by_id_Inr)


text \<open>
  Claim C1, as amended. For a function id whose record exists, the cache-or-load operation
  compares the import-rewritten current source with the cached snapshot: when an entry for
  the id exists and its snapshot equals that source, it returns the cached object, executes
  nothing and leaves the cache as it is; otherwise a call that returns has executed that
  source once and has replaced the cache entry by the new object and the new snapshot. For
  a tool id the handlers keep no snapshot: the cached object is returned whenever the id
  is in the tool cache, whatever the current source, and the module is loaded, and the
  cache entry set, only when the id is absent.
\<close>

theorem cache_or_load_by_snapshot:
  "(\<forall>f. get_function_by_id st i = Some f \<longrightarrow>
      (\<forall>obj. the_map (FUNCTION_CONTENTS st) i = Some (replace_imports (function_content f)) \<and>
             the_map (FUNCTIONS st) i = Some obj \<longrightarrow>
         snd (get_function_module_from_cache e st i True) = Inr (obj, None, None) \<and>
         exec_log (fst (get_function_module_from_cache e st i True)) = exec_log st \<and>
         FUNCTIONS (fst (get_function_module_from_cache e st i True)) = FUNCTIONS st \<and>
         FUNCTION_CONTENTS (fst (get_function_module_from_cache e st i True)) =
           FUNCTION_CONTENTS st) \<and>
      (\<not> (\<exists>obj. the_map (FUNCTION_CONTENTS st) i = Some (replace_imports (function_content f)) \<and>
                 the_map (FUNCTIONS st) i = Some obj) \<longrightarrow>
         (\<forall>st' obj ty fm.
             get_function_module_from_cache e st i True = (st', Inr (obj, ty, fm)) \<longrightarrow>
             ty \<noteq> None \<and>
             exec_log st' = exec_log st @ [replace_imports (function_content f)] \<and>
             the_map (FUNCTIONS st') i = Some obj \<and>
             the_map (FUNCTION_CONTENTS st') i = Some (replace_imports (function_content f))))) \<and>
   (\<forall>m. TOOLS st i = Some m \<longrightarrow> tools_module_for e now st i = (st, Inr m)) \<and>
   (TOOLS st i = None \<longrightarrow>
      (\<forall>st' m. tools_module_for e now st i = (st', Inr m) \<longrightarrow>
          TOOLS st' i = Some m \<and> (\<exists>src. exec_log st' = exec_log st @ [src])))"
proof (intro conjI allI impI)
  fix f obj
  assume f: "get_function_by_id st i = Some f"
    and "the_map (FUNCTION_CONTENTS st) i = Some (replace_imports (function_content f)) \<and>
             the_map (FUNCTIONS st) i = Some obj"
  then have c: "cached_function st i (replace_imports (function_content f)) = Some obj"
    by (simp add: cached_function_iff)
  note h = function_cache_hit[OF f c, of e]
  from h show "snd (get_function_module_from_cache e st i True) = Inr (obj, None, None)"
    by blast
  from h show "exec_log (fst (get_function_module_from_cache e st i True)) = exec_log st"
    by blast
  from h show "FUNCTIONS (fst (get_function_module_from_cache e st i True)) = FUNCTIONS st"
    by blast
  from h show "FUNCTION_CONTENTS (fst (get_function_module_from_cache e st i True)) =
           FUNCTION_CONTENTS st"
    by blast
next
  fix f st' obj ty fm
  assume f: "get_function_by_id st i = Some f"
    and n: "\<not> (\<exists>obj. the_map (FUNCTION_CONTENTS st) i =
                   Some (replace_imports (function_content f)) \<and>
                 the_map (FUNCTIONS st) i = Some obj)"
    and r: "get_function_module_from_cache e st i True = (st', Inr (obj, ty, fm))"
  have c: "cached_function st i (replace_imports (function_content f)) = None"
  proof (cases "cached_function st i (replace_imports (function_content f))")
    case None
    then show ?thesis .
  next
    case (Some a)
    then have "the_map (FUNCTION_CONTENTS st) i = Some (replace_imports (function_content f)) \<and>
        the_map (FUNCTIONS st) i = Some a"
      by (simp add: cached_function_iff)
    with n show ?thesis by blast
  qed
  note h = function_cache_miss[OF f c r]
  from h show "ty \<noteq> None" by blast
  from h show "exec_log st' = exec_log st @ [replace_imports (function_content f)]" by blast
  from h show "the_map (FUNCTIONS st') i = Some obj" by blast
  from h show "the_map (FUNCTION_CONTENTS st') i = Some (replace_imports (function_content f))"
    by blast
next
  fix m
  assume "TOOLS st i = Some m"
  then show "tools_module_for e now st i = (st, Inr m)"
    by (rule tools_module_for_hit)
next
  fix st' m
  assume a: "TOOLS st i = None" "tools_module_for e now st i = (st', Inr m)"
  from tools_module_for_miss[OF a] show "TOOLS st' i = Some m" by blast
  from tools_module_for_miss[OF a] show "\<exists>src. exec_log st' = exec_log st @ [src]" by blast
qed

theorem cache_or_load_by_snapshot_witness:
  "get_function_by_id function_state ''f'' = Some demo_function \<and>
   replace_imports (function_content demo_function) = ''from open_webui.utils import x'' \<and>
   the_map (FUNCTION_CONTENTS function_state) ''f'' = None \<and>
   snd (get_function_module_from_cache demo_env function_state ''f'' True) =
     Inr (FunctionObj ''from open_webui.utils import x'', Some ''pipe'', Some []) \<and>
   exec_log (fst (get_function_module_from_cache demo_env function_state ''f'' True)) =
     [''from open_webui.utils import x''] \<and>
   snd (get_function_module_from_cache demo_env
          (fst (get_function_module_from_cache demo_env function_state ''f'' True)) ''f'' True) =
     Inr (FunctionObj ''from open_webui.utils import x'', None, None) \<and>
   exec_log (fst (get_function_module_from_cache demo_env
          (fst (get_function_module_from_cache demo_env function_state ''f'' True)) ''f'' True)) =
     [''from open_webui.utils import x''] \<and>
   (\<exists>m. TOOLS loaded_then_edited ''t'' = Some m \<and> obj_label m = ''import a'' \<and>
        tools_module_for demo_env 7 loaded_then_edited ''t'' = (loaded_then_edited, Inr m))"
proof -
  let ?c = "''from open_webui.utils import x''"
  let ?G1 = "get_function_module_from_cache demo_env function_state ''f'' True"
  let ?s1 = "fst ?G1"
  let ?G2 = "get_function_module_from_cache demo_env ?s1 ''f'' True"
  let ?f2 = "demo_function\<lparr>function_content := ?c\<rparr>"
  have g: "get_function_by_id function_state ''f'' = Some demo_function" by code_simp
  have rc: "replace_imports (function_content demo_function) = ?c" by code_simp
  have n: "the_map (FUNCTION_CONTENTS function_state) ''f'' = None" by code_simp
  have e0: "exec_log function_state = []" by code_simp
  have r1: "snd ?G1 = Inr (FunctionObj ?c, Some ''pipe'', Some [])" by code_simp
  then have G1: "?G1 = (?s1, Inr (FunctionObj ?c, Some ''pipe'', Some []))"
    by (metis prod.collapse)
  from n have nn: "\<not> (\<exists>obj. the_map (FUNCTION_CONTENTS function_state) ''f'' =
        Some (replace_imports (function_content demo_function)) \<and>
        the_map (FUNCTIONS function_state) ''f'' = Some obj)"
    by simp
  from cache_or_load_by_snapshot[of function_state "''f''" demo_env] g nn G1
  have m1: "exec_log ?s1 = exec_log function_state @ [replace_imports (function_content demo_function)] \<and>
      the_map (FUNCTIONS ?s1) ''f'' = Some (FunctionObj ?c) \<and>
      the_map (FUNCTION_CONTENTS ?s1) ''f'' = Some (replace_imports (function_content demo_function))"
    by blast
  with e0 rc have x1: "exec_log ?s1 = [?c]" by simp
  have g2: "get_function_by_id ?s1 ''f'' = Some ?f2" by code_simp
  have rc2: "replace_imports (function_content ?f2) = ?c" by code_simp
  from m1 rc rc2 have h2: "the_map (FUNCTION_CONTENTS ?s1) ''f'' =
        Some (replace_imports (function_content ?f2)) \<and>
      the_map (FUNCTIONS ?s1) ''f'' = Some (FunctionObj ?c)"
    by simp
  from cache_or_load_by_snapshot[of ?s1 "''f''" demo_env] g2 h2
  have "snd ?G2 = Inr (FunctionObj ?c, None, None) \<and> exec_log (fst ?G2) = exec_log ?s1"
    by blast
  with x1 have m2: "snd ?G2 = Inr (FunctionObj ?c, None, None)" "exec_log (fst ?G2) = [?c]"
    by simp_all
  have "map_option obj_label (TOOLS loaded_then_edited ''t'') = Some ''import a''"
    by code_simp
  then obtain m where m: "TOOLS loaded_then_edited ''t'' = Some m" "obj_label m = ''import a''"
    by auto
  from cache_or_load_by_snapshot[of loaded_then_edited "''t''" demo_env 7] m(1)
  have "tools_module_for demo_env 7 loaded_then_edited ''t'' = (loaded_then_edited, Inr m)"
    by blast
  with m have t: "\<exists>m. TOOLS loaded_then_edited ''t'' = Some m \<and> obj_label m = ''import a'' \<and>
        tools_module_for demo_env 7 loaded_then_edited ''t'' = (loaded_then_edited, Inr m)"
    by blast
  from g rc n r1 x1 m2 t show ?thesis by (intro conjI)
qed

text \<open>
  The claim as stated fails for a tool id: after the source of the tool has been edited in
  the store, the schema handler still returns the object built from the old source, and
  executes nothing, although executing the current source would build another object.
\<close>

theorem cache_or_load_by_snapshot_counterexample:
  "map content (tool_table loaded_then_edited) = [''import b''] \<and>
   exec_log loaded_then_edited = [''import a''] \<and>
   map_option obj_label (TOOLS loaded_then_edited ''t'') = Some ''import a'' \<and>
   snd (get_tools_valves_spec_by_id demo_env 7 loaded_then_edited ''t'' bob) =
     Inr (Some (JObj [(''title'', JStr ''Valves'')])) \<and>
   exec_log (fst (get_tools_valves_spec_by_id demo_env 7 loaded_then_edited ''t'' bob)) =
     [''import a''] \<and>
   map_option obj_label
     (TOOLS (fst (get_tools_valves_spec_by_id demo_env 7 loaded_then_edited ''t'' bob)) ''t'') =
     Some ''import a'' \<and>
   built_label demo_env ''import b'' = Some ''import b''"
  by code_simp

section \<open>Properties: installing declared dependencies\<close>

lemma dropWhile_id: "xs = [] \<or> \<not> P (hd xs) \<Longrightarrow> dropWhile P xs = xs"
  by (cases xs) auto

lemma trimmed_py_strip: "trimmed (py_strip s)"
proof -
  define a where "a = dropWhile py_isspace s"
  define b where "b = dropWhile py_isspace (rev a)"
  have strip: "py_strip s = rev b"
    by (simp add: py_strip_def a_def b_def)
  show ?thesis
  proof (cases "b = []")
    case True
    then show ?thesis by (simp add: strip trimmed_def)
  next
    case False
    then have hb: "\<not> py_isspace (hd b)"
      unfolding b_def by (rule hd_dropWhile)
    from False have an: "a \<noteq> []"
      unfolding b_def by auto
    then have ha: "\<not> py_isspace (hd a)"
      unfolding a_def by (rule hd_dropWhile)
    have "rev a = takeWhile py_isspace (rev a) @ b"
      unfolding b_def by simp
    then have "rev (rev a) = rev (takeWhile py_isspace (rev a) @ b)"
      by simp
    then have "a = rev b @ rev (takeWhile py_isspace (rev a))"
      by simp
    with False have "hd (rev b) = hd a"
      by (metis hd_append2 rev_is_Nil_conv)
    moreover from False have "last (rev b) = hd b"
      by (simp add: last_rev)
    ultimately show ?thesis
      using ha hb False by (simp add: strip trimmed_def)
  qed
qed

lemma py_strip_trimmed: "trimmed x \<Longrightarrow> py_strip x = x"
proof (cases "x = []")
  case True
  then show ?thesis by (simp add: py_strip_def)
next
  case False
  assume "trimmed x"
  with False have h: "\<not> py_isspace (hd x)" and l: "\<not> py_isspace (last x)"
    by (auto simp: trimmed_def)
  from h have 1: "dropWhile py_isspace x = x"
    by (simp add: dropWhile_id)
  from l False have "\<not> py_isspace (hd (rev x))"
    by (simp add: hd_rev)
  then have "dropWhile py_isspace (rev x) = rev x"
    by (simp add: dropWhile_id)
  with 1 show ?thesis by (simp add: py_strip_def)
qed

lemma py_strip_space: "py_isspace c \<Longrightarrow> py_strip (c # x) = py_strip x"
  by (simp add: py_strip_def)

lemma set_py_strip: "set (py_strip x) \<subseteq> set x"
  unfolding py_strip_def
  by (metis (no_types, lifting) set_dropWhileD set_rev subsetI)

lemma py_split_not_Nil [simp]: "py_split sep s \<noteq> []"
  by (induction s) (auto split: list.splits)

lemma py_split_absent: "sep \<notin> set x \<Longrightarrow> py_split sep x = [x]"
  by (induction x) auto

lemma py_split_append: "sep \<notin> set x \<Longrightarrow> py_split sep (x @ sep # y) = x # py_split sep y"
  by (induction x) auto

lemma py_split_pieces: "w \<in> set (py_split sep s) \<Longrightarrow> sep \<notin> set w"
  by (induction s arbitrary: w) (auto split: if_splits list.splits)


lemma space_isspace: "py_isspace CHR '' ''"
  by (simp add: py_isspace_def)

lemma split_join_entries:
  "ds \<noteq> [] \<Longrightarrow> \<forall>d \<in> set ds. entry d \<Longrightarrow>
   map py_strip (py_split CHR '','' (py_join '', '' ds)) = ds"
proof (induction "'', ''" ds rule: py_join.induct)
  case 1
  then show ?case by simp
next
  case (2 x)
  then show ?case
    by (simp add: entry_def py_split_absent py_strip_trimmed)
next
  case (3 x y ys)
  let ?J = "py_join '', '' (y # ys)"
  from 3 have IH: "map py_strip (py_split CHR '','' ?J) = y # ys"
    by simp
  then obtain w ws where w: "py_split CHR '','' ?J = w # ws"
    by (cases "py_split CHR '','' ?J") auto
  with IH have ws: "py_strip w = y" "map py_strip ws = ys" by simp_all
  from 3(3) have x: "CHR '','' \<notin> set x" "py_strip x = x"
    by (simp_all add: entry_def py_strip_trimmed)
  have j: "py_join '', '' (x # y # ys) = x @ CHR '','' # (CHR '' '' # ?J)"
    by simp
  have "py_split CHR '','' (py_join '', '' (x # y # ys)) =
      x # py_split CHR '','' (CHR '' '' # ?J)"
    unfolding j using x(1) by (rule py_split_append)
  also have "py_split CHR '','' (CHR '' '' # ?J) = (CHR '' '' # w) # ws"
    using w by simp
  finally show ?case
    using x(2) ws by (simp add: py_strip_space space_isspace)
qed

lemma install_frontmatter_requirements_pip_log:
  "pip_log (fst (install_frontmatter_requirements e st r)) =
     pip_log st @
       (let req_list = filter (\<lambda>req. req \<noteq> []) (map py_strip (py_split CHR '','' r))
        in if req_list = [] then [] else [pip_command e req_list])"
  by (cases "r = []") (simp_all add: install_frontmatter_requirements_def Let_def py_strip_def)

lemma set_add_props:
  "set (set_add x xs) = insert x (set xs)"
  "distinct xs \<Longrightarrow> distinct (set_add x xs)"
  by (auto simp: set_add_def)

lemma fold_set_add:
  "set (fold (\<lambda>dep acc. set_add (g dep) acc) xs acc) = set acc \<union> g ` set xs"
  "distinct acc \<Longrightarrow> distinct (fold (\<lambda>dep acc. set_add (g dep) acc) xs acc)"
  by (induction xs arbitrary: acc) (auto simp: set_add_props)

lemma entry_py_strip_piece: "w \<in> set (py_split CHR '','' d) \<Longrightarrow> entry (py_strip w)"
  using py_split_pieces[of w "CHR '',''" d] set_py_strip[of w]
  by (auto simp: entry_def trimmed_py_strip)

lemma declared_entries_entry: "x \<in> declared_entries fm \<Longrightarrow> entry x"
  by (auto simp: declared_entries_def entry_py_strip_piece split: option.splits if_splits)

lemma add_dependencies_props:
  "set (add_dependencies fm acc) = set acc \<union> declared_entries fm"
  "distinct acc \<Longrightarrow> distinct (add_dependencies fm acc)"
  by (auto simp: add_dependencies_def declared_entries_def fold_set_add split: option.splits)

lemma fold_add_dependencies:
  "set (fold (\<lambda>x acc. add_dependencies (g x) acc) xs acc) =
     set acc \<union> (\<Union>x \<in> set xs. declared_entries (g x))"
  "distinct acc \<Longrightarrow> distinct (fold (\<lambda>x acc. add_dependencies (g x) acc) xs acc)"
  by (induction xs arbitrary: acc) (auto simp: add_dependencies_props)

lemma tool_frontmatter_get_tools:
  "map (tool_frontmatter e) (get_tools st) =
     map (row_frontmatter e st) (order_by_updated_at_desc (tool_table st))"
  by (auto simp: get_tools_def tool_frontmatter_def row_frontmatter_def Let_def
      to_tool_user_model_def system_user_placeholder_def joined_user_def
      split: option.splits)

lemma collect_dependencies_props:
  "set (collect_dependencies e st) = declared_dependencies e st"
  "distinct (collect_dependencies e st)"
proof -
  have "(\<Union>t \<in> set (get_tools st). declared_entries (tool_frontmatter e t)) =
      (\<Union>fm \<in> set (map (tool_frontmatter e) (get_tools st)). declared_entries fm)"
    by simp
  also have "\<dots> = (\<Union>t \<in> set (tool_table st). declared_entries (row_frontmatter e st t))"
    unfolding tool_frontmatter_get_tools by simp
  finally show "set (collect_dependencies e st) = declared_dependencies e st"
    by (simp add: collect_dependencies_def Let_def fold_add_dependencies
        declared_dependencies_def get_functions_active_only_def)
  show "distinct (collect_dependencies e st)"
    by (simp add: collect_dependencies_def Let_def fold_add_dependencies)
qed


text \<open>
  Claim C9, as amended. The batch entry point collects the requirement entries declared by
  every active function, by every tool whose owner is an administrator and by every
  ownerless \<^verbatim>\<open>custom_\<close> tool whose file can be read; tools of other owners contribute
  nothing. It invokes the package installer exactly once, with each non-empty entry once,
  and not at all when there is no non-empty entry.
\<close>

theorem batch_dependencies_installed_once:
  "\<exists>reqs. distinct reqs \<and> set reqs = declared_dependencies e st - {[]} \<and>
          pip_log (install_tool_and_function_dependencies e st) =
            pip_log st @ (if reqs = [] then [] else [pip_command e reqs])"
proof -
  let ?deps = "collect_dependencies e st"
  let ?reqs = "filter (\<lambda>req. req \<noteq> []) ?deps"
  have d: "distinct ?reqs"
    by (simp add: collect_dependencies_props)
  have s: "set ?reqs = declared_dependencies e st - {[]}"
    by (auto simp: collect_dependencies_props)
  have p: "pip_log (install_tool_and_function_dependencies e st) =
            pip_log st @ (if ?reqs = [] then [] else [pip_command e ?reqs])"
  proof (cases "?deps = []")
    case True
    then show ?thesis
      by (simp add: install_tool_and_function_dependencies_def)
  next
    case False
    have "\<forall>x \<in> set ?deps. entry x"
      by (auto simp: collect_dependencies_props declared_dependencies_def
          dest: declared_entries_entry)
    with False have "map py_strip (py_split CHR '','' (py_join '', '' ?deps)) = ?deps"
      by (rule split_join_entries)
    with False show ?thesis
      by (simp add: install_tool_and_function_dependencies_def
          install_frontmatter_requirements_pip_log Let_def)
  qed
  from d s p show ?thesis by blast
qed

theorem batch_dependencies_installed_once_witness:
  "pip_log deps_state = [] \<and>
   pip_log (install_tool_and_function_dependencies demo_env deps_state) =
     [[''python'', ''-m'', ''pip'', ''install'', ''bar'', ''qux'', ''foo'']] \<and>
   declared_dependencies demo_env deps_state - {[]} = {''bar'', ''qux'', ''foo''}"
proof -
  have l0: "pip_log deps_state = []" by code_simp
  have l1: "pip_log (install_tool_and_function_dependencies demo_env deps_state) =
     [[''python'', ''-m'', ''pip'', ''install'', ''bar'', ''qux'', ''foo'']]"
    by code_simp
  have c: "pip_command demo_env reqs = [''python'', ''-m'', ''pip'', ''install''] @ reqs" for reqs
    by (simp add: pip_command_def demo_env_def)
  from batch_dependencies_installed_once[of demo_env deps_state] obtain reqs where
    r: "set reqs = declared_dependencies demo_env deps_state - {[]}"
       "pip_log (install_tool_and_function_dependencies demo_env deps_state) =
            pip_log deps_state @ (if reqs = [] then [] else [pip_command demo_env reqs])"
    by blast
  from r(2) l0 l1 have "reqs = [''bar'', ''qux'', ''foo'']"
    by (auto simp: c split: if_splits)
  with r(1) have "declared_dependencies demo_env deps_state - {[]} = {''bar'', ''qux'', ''foo''}"
    by auto
  with l0 l1 show ?thesis by (intro conjI)
qed

text \<open>
  The claim as stated fails: the only tool in the store below declares the requirement
  \<^verbatim>\<open>foo\<close>, its owner bob is not an administrator, and the installer is not invoked.
\<close>

theorem batch_dependencies_installed_once_counterexample:
  "declared_in_every_source bob_only_state = {''foo''} \<and>
   pip_log bob_only_state = [] \<and>
   pip_log (install_tool_and_function_dependencies demo_env bob_only_state) = []"
  by code_simp

end
